theory Spec2Isabelle
  imports Complex_Main
begin

section \<open>Synchronised audio playback: the shared model and the audience view\<close>

text \<open>
  A shallow embedding of \<^verbatim>\<open>src/model.js\<close> (class \<^verbatim>\<open>SyncedAudioModel\<close>) and of the
  audience half of \<^verbatim>\<open>src/conductor.js\<close> (classes \<^verbatim>\<open>AudioView\<close> and
  \<^verbatim>\<open>SyncingAudioView\<close>).

  Conventions of the embedding:
  \<^item> a JavaScript number is a \<^typ>\<open>real\<close>: IEEE rounding, \<^verbatim>\<open>NaN\<close> and the infinities are
    not represented, so \<^verbatim>\<open>0.3 * x\<close> is the exact product;
  \<^item> a field that holds a number or \<^verbatim>\<open>null\<close>/\<^verbatim>\<open>undefined\<close> is a \<^typ>\<open>real option\<close>;
  \<^item> \<^verbatim>\<open>Math.round\<close> is \<^const>\<open>round\<close> (nearest integer, ties upwards),
    \<^verbatim>\<open>Math.sign\<close> is \<^const>\<open>sgn\<close>, \<^verbatim>\<open>Math.abs\<close> is \<^const>\<open>abs\<close>;
  \<^item> \<^verbatim>\<open>Date.now()\<close> and \<^verbatim>\<open>extrapolatedNow()\<close> are read once per handler and are passed
    to it as the arguments \<open>now\<close> and \<open>sessionNow\<close>;
  \<^item> a handler returns \<open>Inr\<close> of the new state, or \<open>Inl\<close> of the reason it does not
    return normally.
  The time bar canvas, console output and the fetch of the asset are not part of the
  embedded state.
\<close>

subsection \<open>Failures\<close>

datatype failure =
    Diverges    \<comment> \<open>the wrapping loop of \<^verbatim>\<open>wrappedTime\<close> never exits\<close>
  | TypeError   \<comment> \<open>a property of an undefined \<^verbatim>\<open>latestPlayState\<close> is read\<close>

text \<open>\<^verbatim>\<open>null\<close> converts to \<open>0\<close> wherever the code does arithmetic on it or assigns it to
  \<^verbatim>\<open>currentTime\<close>; \<^verbatim>\<open>x || 0\<close> on a number or \<^verbatim>\<open>undefined\<close> is the same function.\<close>

definition num_of :: "real option \<Rightarrow> real" where
  "num_of x = (case x of None \<Rightarrow> 0 | Some r \<Rightarrow> r)"

subsection \<open>The replicated model (\<^verbatim>\<open>SyncedAudioModel\<close>)\<close>

record asset =
  fileUrl :: string
  name :: string

record play_state =
  isPlaying :: bool
  startOffset :: "real option"
  pausedTime :: "real option"

datatype model_event =
    StatusTick
  | AssetsChanged
  | PlayStateChanged play_state
  | StartOffsetChanged real

record synced_audio_model =
  m_isPlaying :: bool
  m_startOffset :: "real option"   \<comment> \<open>only valid if playing\<close>
  m_pausedTime :: "real option"    \<comment> \<open>only valid if paused\<close>
  audioAsset :: "asset option"
  videoAsset :: "asset option"
  published :: "model_event list"  \<comment> \<open>events published to scope \<^verbatim>\<open>'model'\<close>, oldest first\<close>

definition publish :: "model_event \<Rightarrow> synced_audio_model \<Rightarrow> synced_audio_model" where
  "publish e m = m\<lparr>published := published m @ [e]\<rparr>"

definition setAssets :: "asset \<Rightarrow> asset \<Rightarrow> synced_audio_model \<Rightarrow> synced_audio_model" where
  "setAssets a v m =
     publish AssetsChanged
       (m\<lparr>m_isPlaying := False, m_startOffset := None, m_pausedTime := Some 0,
          audioAsset := Some a, videoAsset := Some v\<rparr>)"

definition setPlayState :: "play_state \<Rightarrow> synced_audio_model \<Rightarrow> synced_audio_model" where
  "setPlayState data m =
     publish
       (PlayStateChanged
          \<lparr>isPlaying = isPlaying data, startOffset = startOffset data, pausedTime = pausedTime data\<rparr>)
       (m\<lparr>m_isPlaying := isPlaying data, m_startOffset := startOffset data,
          m_pausedTime := pausedTime data\<rparr>)"

definition setStartOffset :: "real \<Rightarrow> synced_audio_model \<Rightarrow> synced_audio_model" where
  "setStartOffset so m =
     (if \<not> m_isPlaying m then m
      else publish (StartOffsetChanged so) (m\<lparr>m_startOffset := Some so\<rparr>))"

subsection \<open>The media device (\<^verbatim>\<open>AudioView\<close> over an HTML audio element)\<close>

record audio_element =
  currentTime :: real
  playbackRate :: real
  volume :: real

datatype device_call =
    Play real              \<comment> \<open>\<^verbatim>\<open>AudioView.play(audioTime)\<close>\<close>
  | Pause "real option"    \<comment> \<open>\<^verbatim>\<open>AudioView.pause(audioTime)\<close>: \<open>None\<close> when called without argument,
                                a \<^verbatim>\<open>null\<close> argument as the 0 it converts to\<close>

record audio_view =
  duration :: "real option"   \<comment> \<open>\<open>None\<close>: not a number (undefined or NaN)\<close>
  audio :: audio_element
  av_isPlaying :: bool
  av_isBlocked :: bool
  calls :: "device_call list" \<comment> \<open>the invocations of \<^verbatim>\<open>play\<close> and \<^verbatim>\<open>pause\<close>, oldest first\<close>

text \<open>\<^verbatim>\<open>while (audioTime > this.duration) audioTime -= this.duration\<close>. For a negative
  duration the loop does not exit, which is the value \<open>None\<close>.\<close>

partial_function (option) wrap_loop :: "real \<Rightarrow> real \<Rightarrow> real option" where
  "wrap_loop audioTime d =
     (if audioTime > d then wrap_loop (audioTime - d) d else Some audioTime)"

declare wrap_loop.simps [code]

definition wrappedTime :: "audio_view \<Rightarrow> real \<Rightarrow> bool \<Rightarrow> failure + real" where
  "wrappedTime av audioTime guarded =
     (case duration av of
        None \<Rightarrow> Inr audioTime
      | Some d \<Rightarrow>
          if d = 0 then Inr audioTime
          else (case wrap_loop audioTime d of
                  None \<Rightarrow> Inl Diverges
                | Some t \<Rightarrow> Inr (if guarded then min (d - 0.1) t else t)))"

text \<open>\<^verbatim>\<open>play\<close> up to its \<^verbatim>\<open>await\<close>: the seek, the flags and the reduced volume. The
  browser's answer arrives later and is \<open>playSettled\<close>.\<close>

definition play :: "real \<Rightarrow> audio_view \<Rightarrow> failure + audio_view" where
  "play audioTime av =
     (case wrappedTime av audioTime True of
        Inl e \<Rightarrow> Inl e
      | Inr t \<Rightarrow>
          Inr (av\<lparr>audio := (audio av)\<lparr>currentTime := t, volume := 0.2\<rparr>,
                 av_isPlaying := True, av_isBlocked := True,
                 calls := calls av @ [Play audioTime]\<rparr>))"

definition playSettled :: "bool \<Rightarrow> audio_view \<Rightarrow> audio_view \<times> bool" where
  "playSettled allowed av =
     (let av' = (if allowed then av\<lparr>av_isBlocked := False\<rparr> else av)
      in (av', \<not> av_isBlocked av'))"

definition setStatic :: "real option \<Rightarrow> audio_view \<Rightarrow> failure + audio_view" where
  "setStatic audioTime av =
     (case audioTime of
        None \<Rightarrow> Inr av
      | Some t \<Rightarrow>
          (case wrappedTime av t True of
             Inl e \<Rightarrow> Inl e
           | Inr t' \<Rightarrow> Inr (av\<lparr>audio := (audio av)\<lparr>currentTime := t'\<rparr>\<rparr>)))"

definition pause :: "real option \<Rightarrow> audio_view \<Rightarrow> failure + audio_view" where
  "pause audioTime av =
     setStatic audioTime
       (av\<lparr>av_isPlaying := False, av_isBlocked := False, calls := calls av @ [Pause audioTime]\<rparr>)"

subsection \<open>The audience view (\<^verbatim>\<open>SyncingAudioView\<close>)\<close>

text \<open>The report published to scope \<^verbatim>\<open>'audience'\<close> by each timing check. The fields kept
  are the measurements and the decisions of the check; a field the code leaves unset is
  \<open>None\<close>. The view id, platform string, latency and session-clock variation are left out.\<close>

record report =
  r_expectedTime :: real
  r_audioTime :: real
  r_playback :: real
  r_volume :: real
  r_audioDiffMS :: "real option"
  r_audioDiffMSSmoothed :: "real option"
  r_jumped :: "real option"
  r_oldBoost :: "real option"
  r_newBoost :: "real option"

text \<open>\<open>playbackBoost\<close> is assigned when a load completes, before \<open>audioView\<close> is; every
  read of it is behind a test that \<open>audioView\<close> is set, so it is modelled as a number.\<close>

record syncing_audio_view =
  audioView :: "audio_view option"
  smoothedDiff :: "real option"
  lastJump :: "real option"
  lastRateAdjust :: "real option"
  playbackBoost :: real
  latestPlayState :: "play_state option"
  waitingForSync :: bool
  abandonLoad :: bool               \<comment> \<open>whether a load is pending and can be abandoned\<close>
  lastTimingCheck :: "real option"
  jumpIfNeeded :: bool
  playIcon :: bool                  \<comment> \<open>opacity 1 or 0\<close>
  enableSoundIcon :: bool
  reports :: "report list"          \<comment> \<open>oldest first\<close>

text \<open>\<^verbatim>\<open>randomizeStart\<close> is the constant \<^verbatim>\<open>false\<close>, so \<^verbatim>\<open>Math.random()\<close> is never called.\<close>

definition randomOffset :: real where
  "randomOffset = 0"

definition calculateAudioTime :: "real \<Rightarrow> syncing_audio_view \<Rightarrow> failure + real" where
  "calculateAudioTime sessionNow v =
     (case latestPlayState v of
        None \<Rightarrow> Inl TypeError
      | Some ps \<Rightarrow> Inr ((sessionNow - num_of (startOffset ps)) / 1000))"

definition applyPlayState :: "real \<Rightarrow> real \<Rightarrow> syncing_audio_view \<Rightarrow> failure + syncing_audio_view" where
  "applyPlayState now sessionNow v =
     (case audioView v of
        None \<Rightarrow> Inr v
      | Some av \<Rightarrow>
          if waitingForSync v then Inr v
          else (case latestPlayState v of
                  None \<Rightarrow> Inl TypeError
                | Some ps \<Rightarrow>
                    if \<not> isPlaying ps then
                      (case pause (Some (num_of (pausedTime ps))) av of
                         Inl e \<Rightarrow> Inl e
                       | Inr av' \<Rightarrow>
                           Inr (v\<lparr>playIcon := True, enableSoundIcon := False,
                                  audioView := Some av'\<rparr>))
                    else
                      (let v1 = v\<lparr>lastJump := None, lastRateAdjust := None,
                                  smoothedDiff := None, playIcon := False\<rparr>;
                           av1 = av\<lparr>audio := (audio av)
                                   \<lparr>playbackRate := 1 + playbackBoost v1 * 0.01\<rparr>\<rparr>;
                           v2 = v1\<lparr>lastRateAdjust := Some now, jumpIfNeeded := False\<rparr>
                       in (case calculateAudioTime sessionNow v2 of
                             Inl e \<Rightarrow> Inl e
                           | Inr t \<Rightarrow>
                               (case play (t + 0.1 + randomOffset) av1 of
                                  Inl e \<Rightarrow> Inl e
                                | Inr av2 \<Rightarrow> Inr (v2\<lparr>audioView := Some av2\<rparr>))))))"

text \<open>The continuation of \<^verbatim>\<open>audioView.play(...).then(...)\<close> in \<open>applyPlayState\<close>.\<close>

definition playStarted :: "bool \<Rightarrow> syncing_audio_view \<Rightarrow> syncing_audio_view" where
  "playStarted allowed v =
     (case audioView v of
        None \<Rightarrow> v
      | Some av \<Rightarrow>
          (let (av', started) = playSettled allowed av
           in v\<lparr>audioView := Some av', enableSoundIcon := \<not> started\<rparr>))"

definition playStateChanged ::
    "real \<Rightarrow> real \<Rightarrow> play_state \<Rightarrow> syncing_audio_view \<Rightarrow> failure + syncing_audio_view" where
  "playStateChanged now sessionNow rawData v =
     (let data = rawData; latest = latestPlayState v
      in if latest \<noteq> None \<and>
            isPlaying data = isPlaying (the latest) \<and>
            startOffset data = startOffset (the latest) \<and>
            pausedTime data = pausedTime (the latest)
         then Inr v
         else applyPlayState now sessionNow (v\<lparr>latestPlayState := Some data\<rparr>))"

definition handleSyncState ::
    "real \<Rightarrow> real \<Rightarrow> bool \<Rightarrow> syncing_audio_view \<Rightarrow> failure + syncing_audio_view" where
  "handleSyncState now sessionNow isSynced v =
     (let wasWaiting = waitingForSync v;
          v1 = v\<lparr>waitingForSync := \<not> isSynced\<rparr>
      in if wasWaiting \<and> isSynced then applyPlayState now sessionNow v1 else Inr v1)"

definition disposeOfAudio :: "syncing_audio_view \<Rightarrow> syncing_audio_view" where
  "disposeOfAudio v = v\<lparr>abandonLoad := False, audioView := None\<rparr>"

text \<open>\<^verbatim>\<open>assetsChanged\<close> up to its first \<^verbatim>\<open>await\<close>, reading the model.\<close>

definition assetsChanged :: "bool \<Rightarrow> synced_audio_model \<Rightarrow> syncing_audio_view \<Rightarrow> syncing_audio_view" where
  "assetsChanged isSynced m v =
     (disposeOfAudio v)
       \<lparr>waitingForSync := \<not> isSynced,
        latestPlayState :=
          Some \<lparr>isPlaying = m_isPlaying m, startOffset = m_startOffset m,
                pausedTime = m_pausedTime m\<rparr>,
        abandonLoad := True\<rparr>"

text \<open>\<^verbatim>\<open>assetsChanged\<close> after the audio element reports that it can play. \<open>okToGo\<close> is the
  flag of this load, cleared by \<open>disposeOfAudio\<close> in the meantime. A \<^verbatim>\<open>TypeError\<close> thrown
  by \<open>applyPlayState\<close> is caught and logged.\<close>

definition assetsLoaded ::
    "real \<Rightarrow> real \<Rightarrow> bool \<Rightarrow> audio_view \<Rightarrow> syncing_audio_view \<Rightarrow> failure + syncing_audio_view" where
  "assetsLoaded now sessionNow okToGo newView v =
     (if \<not> okToGo then Inr v
      else (let v1 = v\<lparr>abandonLoad := False, audioView := Some newView, playbackBoost := 0\<rparr>
            in case applyPlayState now sessionNow v1 of
                 Inl TypeError \<Rightarrow> Inr v1
               | Inl Diverges \<Rightarrow> Inl Diverges
               | Inr v2 \<Rightarrow> Inr (v2\<lparr>lastTimingCheck := Some (now + 500)\<rparr>)))"

text \<open>A fresh \<^verbatim>\<open>AudioView\<close> whose element has reported duration \<open>d\<close>.\<close>

definition newAudioView :: "real option \<Rightarrow> audio_view" where
  "newAudioView d =
     \<lparr>duration = d, audio = \<lparr>currentTime = 0, playbackRate = 1, volume = 1\<rparr>,
      av_isPlaying = False, av_isBlocked = False, calls = []\<rparr>"

subsection \<open>The timing check (\<^verbatim>\<open>SyncingAudioView.checkPlaybackTiming\<close>)\<close>

definition CHECK_INTERVAL :: real where "CHECK_INTERVAL = 3000"
definition THRESH_5 :: real where "THRESH_5 = 300"
definition THRESH_3 :: real where "THRESH_3 = 150"
definition THRESH_1 :: real where "THRESH_1 = 50"
definition THRESH_0 :: real where "THRESH_0 = 25"
definition lostTime :: real where "lostTime = 0.2"

text \<open>The value given to both the local \<^verbatim>\<open>audioDiffMSSmoothed\<close> and the field
  \<^verbatim>\<open>smoothedDiff\<close>, from the previous \<^verbatim>\<open>smoothedDiff\<close> and the new sample.\<close>

definition audioDiffMSSmoothed :: "real option \<Rightarrow> real \<Rightarrow> real" where
  "audioDiffMSSmoothed prev audioDiffMS =
     (case prev of
        None \<Rightarrow> of_int (round audioDiffMS)
      | Some s \<Rightarrow>
          (let newFactor = 0.3
           in of_int (round (newFactor * audioDiffMS + (1 - newFactor) * s))))"

definition desiredBoostPercent :: "real \<Rightarrow> real \<Rightarrow> real" where
  "desiredBoostPercent diffAbs diffSign =
     - diffSign * (if diffAbs > THRESH_5 then 5
                   else if diffAbs > THRESH_3 then 3
                   else if diffAbs > THRESH_1 then 1 else 0)"

definition hysteresisBlock :: "real \<Rightarrow> real \<Rightarrow> real \<Rightarrow> real \<Rightarrow> bool" where
  "hysteresisBlock desired oldBoostPercent diffSign diffAbs =
     (desired = 0 \<and> sgn oldBoostPercent = - diffSign \<and> diffAbs \<ge> THRESH_0)"

type_synonym check_state = "syncing_audio_view \<times> audio_view \<times> report"

text \<open>The branch taken when no jump is made: every 3 s, set the playback rate from the
  smoothed difference.\<close>

definition rateAdjustment :: "real \<Rightarrow> real \<Rightarrow> check_state \<Rightarrow> check_state" where
  "rateAdjustment now smoothed = (\<lambda>(v, av, rep).
     if now - num_of (lastRateAdjust v) \<ge> CHECK_INTERVAL then
       (let oldBoostPercent = playbackBoost v;
            rep1 = rep\<lparr>r_oldBoost := Some oldBoostPercent\<rparr>;
            diffAbs = \<bar>smoothed\<bar>;
            diffSign = sgn smoothed;
            desired = desiredBoostPercent diffAbs diffSign;
            (v1, av1, rep2) =
              (if desired \<noteq> oldBoostPercent \<and>
                  \<not> hysteresisBlock desired oldBoostPercent diffSign diffAbs
               then (v\<lparr>playbackBoost := desired\<rparr>,
                     av\<lparr>audio := (audio av)\<lparr>playbackRate := 1 + desired * 0.01\<rparr>\<rparr>,
                     rep1\<lparr>r_newBoost := Some desired\<rparr>)
               else (v, av, rep1))
        in (v1\<lparr>lastRateAdjust := Some now\<rparr>, av1, rep2))
     else (v, av, rep))"

text \<open>The body run for a sample that is not discarded: smoothing, then a jump or a rate
  adjustment.\<close>

definition timingCorrection ::
    "real \<Rightarrow> real \<Rightarrow> real \<Rightarrow> check_state \<Rightarrow> failure + check_state" where
  "timingCorrection now audioTime audioDiff = (\<lambda>(v, av, rep).
     let audioDiffMS = audioDiff * 1000;
         smoothed = audioDiffMSSmoothed (smoothedDiff v) audioDiffMS;
         v1 = v\<lparr>smoothedDiff := Some smoothed\<rparr>;
         rep1 = rep\<lparr>r_audioDiffMS := Some (of_int (round audioDiffMS)),
                   r_audioDiffMSSmoothed := Some smoothed\<rparr>;
         wantToJump = (\<bar>smoothed\<bar> > 500)
     in if wantToJump \<and> now - num_of (lastJump v1) > 10000 then
          (case wrappedTime av (audioTime - smoothed / 1000 + lostTime) True of
             Inl e \<Rightarrow> Inl e
           | Inr t \<Rightarrow>
               Inr (v1\<lparr>lastJump := Some now, smoothedDiff := None\<rparr>,
                    av\<lparr>audio := (audio av)\<lparr>currentTime := t\<rparr>\<rparr>,
                    rep1\<lparr>r_jumped := Some (- of_int (round smoothed))\<rparr>))
        else Inr (rateAdjustment now smoothed (v1, av, rep1)))"

definition withinHalfLoop :: "audio_view \<Rightarrow> real \<Rightarrow> bool" where
  "withinHalfLoop av audioDiff =
     (case duration av of None \<Rightarrow> False | Some d \<Rightarrow> \<bar>audioDiff\<bar> < d / 2)"

definition aboutToLoop :: "audio_view \<Rightarrow> real \<Rightarrow> bool" where
  "aboutToLoop av audioTime =
     (case duration av of None \<Rightarrow> False | Some d \<Rightarrow> d - audioTime < 1.5)"

text \<open>The report as it is first built, before the sample is looked at.\<close>

definition newReport :: "real \<Rightarrow> audio_view \<Rightarrow> report" where
  "newReport expectedTime av =
     \<lparr>r_expectedTime = expectedTime,
      r_audioTime = of_int (round (currentTime (audio av) * 1000)) / 1000,
      r_playback = playbackRate (audio av),
      r_volume = volume (audio av),
      r_audioDiffMS = None, r_audioDiffMSSmoothed = None,
      r_jumped = None, r_oldBoost = None, r_newBoost = None\<rparr>"

text \<open>The end of the check: full volume, the jump record cleared when the loop is about
  to restart, the report published.\<close>

definition finishCheck :: "real \<Rightarrow> check_state \<Rightarrow> syncing_audio_view" where
  "finishCheck audioTime = (\<lambda>(v1, av1, rep1).
     let av2 = av1\<lparr>audio := (audio av1)\<lparr>volume := 1.0\<rparr>\<rparr>;
         v2 = (if aboutToLoop av1 audioTime then v1\<lparr>lastJump := None\<rparr> else v1)
     in v2\<lparr>audioView := Some av2, reports := reports v2 @ [rep1]\<rparr>)"

definition checkPlaybackTiming ::
    "real \<Rightarrow> real \<Rightarrow> syncing_audio_view \<Rightarrow> failure + syncing_audio_view" where
  "checkPlaybackTiming now sessionNow v =
     (case audioView v of
        None \<Rightarrow> Inr v
      | Some av \<Rightarrow>
          if av_isPlaying av \<and> \<not> av_isBlocked av then
            (case calculateAudioTime sessionNow v of
               Inl e \<Rightarrow> Inl e
             | Inr calc \<Rightarrow>
                 (case wrappedTime av calc False of
                    Inl e \<Rightarrow> Inl e
                  | Inr expectedTime \<Rightarrow>
                      (let audioTime = currentTime (audio av);
                           audioDiff = audioTime - expectedTime;
                           rep = newReport expectedTime av
                       in case (if withinHalfLoop av audioDiff
                                then timingCorrection now audioTime audioDiff (v, av, rep)
                                else Inr (v, av, rep)) of
                            Inl e \<Rightarrow> Inl e
                          | Inr c \<Rightarrow> Inr (finishCheck audioTime c))))
          else Inr v)"

definition startOffsetChanged ::
    "real \<Rightarrow> real \<Rightarrow> real \<Rightarrow> syncing_audio_view \<Rightarrow> failure + syncing_audio_view" where
  "startOffsetChanged now sessionNow so v =
     (case latestPlayState v of
        None \<Rightarrow> Inl TypeError
      | Some ps \<Rightarrow>
          if isPlaying ps
          then checkPlaybackTiming now sessionNow
                 (v\<lparr>latestPlayState := Some (ps\<lparr>startOffset := Some so\<rparr>)\<rparr>)
          else Inr v)"

text \<open>The smoothed values of successive accepted samples that all measure the same
  difference \<open>d\<close> (in ms), starting from the stored value \<open>s\<close>, when no jump intervenes.\<close>

primrec smoothed_seq :: "real \<Rightarrow> real \<Rightarrow> nat \<Rightarrow> real" where
  "smoothed_seq d s 0 = s"
| "smoothed_seq d s (Suc n) = audioDiffMSSmoothed (Some (smoothed_seq d s n)) d"

subsection \<open>Concrete states\<close>

text \<open>The model as \<^verbatim>\<open>init\<close> leaves it: no asset, \<^verbatim>\<open>isPlaying\<close> not yet assigned (falsy),
  one status tick published.\<close>

definition init_model :: synced_audio_model where
  "init_model =
     \<lparr>m_isPlaying = False, m_startOffset = None, m_pausedTime = None,
      audioAsset = None, videoAsset = None, published = [StatusTick]\<rparr>"

definition sampleAudio :: asset where
  "sampleAudio = \<lparr>fileUrl = ''sampleAudio.mp3'', name = ''sampleAudio''\<rparr>"

definition sampleVideo :: asset where
  "sampleVideo = \<lparr>fileUrl = ''sampleVideo.mp4'', name = ''sampleVideo''\<rparr>"

text \<open>A follower that has loaded a 60 s track and is playing it unblocked, with play state
  \<open>{isPlaying: true, startOffset: 5000, pausedTime: null}\<close>. The arguments are the
  element's position and volume, the rate boost, the drift bookkeeping and the reports
  published so far.\<close>

definition follower ::
    "real \<Rightarrow> real \<Rightarrow> real \<Rightarrow> real option \<Rightarrow> real option \<Rightarrow> real option \<Rightarrow> report list
       \<Rightarrow> syncing_audio_view" where
  "follower pos vol boost sm lj lra reps =
     \<lparr>audioView =
        Some \<lparr>duration = Some 60,
              audio = \<lparr>currentTime = pos, playbackRate = 1 + boost * 0.01, volume = vol\<rparr>,
              av_isPlaying = True, av_isBlocked = False,
              calls = [Pause (Some 0), Play 5.1]\<rparr>,
      smoothedDiff = sm, lastJump = lj, lastRateAdjust = lra, playbackBoost = boost,
      latestPlayState = Some \<lparr>isPlaying = True, startOffset = Some 5000, pausedTime = None\<rparr>,
      waitingForSync = False, abandonLoad = False, lastTimingCheck = Some 10500,
      jumpIfNeeded = False, playIcon = False, enableSoundIcon = False, reports = reps\<rparr>"

text \<open>The report of a check that measured \<open>actual\<close> against \<open>expected\<close> at rate 1.\<close>

definition measured ::
    "real \<Rightarrow> real \<Rightarrow> real \<Rightarrow> real option \<Rightarrow> real option \<Rightarrow> real option \<Rightarrow> report" where
  "measured expected actual vol diffMS smoothed jumped =
     \<lparr>r_expectedTime = expected, r_audioTime = actual, r_playback = 1, r_volume = vol,
      r_audioDiffMS = diffMS, r_audioDiffMSSmoothed = smoothed, r_jumped = jumped,
      r_oldBoost = None, r_newBoost = None\<rparr>"

text \<open>The view as its constructor leaves it when the model has no asset yet. The opacity of
  the two icons comes from the page and is taken as 0 here.\<close>

definition constructed :: syncing_audio_view where
  "constructed =
     \<lparr>audioView = None, smoothedDiff = None, lastJump = None, lastRateAdjust = None,
      playbackBoost = 0, latestPlayState = None, waitingForSync = False, abandonLoad = False,
      lastTimingCheck = None, jumpIfNeeded = False, playIcon = False, enableSoundIcon = False,
      reports = []\<rparr>"

text \<open>An \<^verbatim>\<open>AudioView\<close> on a 60 s track, and a synced view that finished loading at time 1000
  and has published no report.\<close>

definition track ::
    "real \<Rightarrow> real \<Rightarrow> real \<Rightarrow> bool \<Rightarrow> bool \<Rightarrow> device_call list \<Rightarrow> audio_view" where
  "track pos rate vol playing blocked cs =
     \<lparr>duration = Some 60, audio = \<lparr>currentTime = pos, playbackRate = rate, volume = vol\<rparr>,
      av_isPlaying = playing, av_isBlocked = blocked, calls = cs\<rparr>"

definition audience ::
    "audio_view \<Rightarrow> play_state \<Rightarrow> real \<Rightarrow> real option \<Rightarrow> real option \<Rightarrow> real option \<Rightarrow> bool
       \<Rightarrow> syncing_audio_view" where
  "audience av ps boost sm lj lra icon =
     \<lparr>audioView = Some av, smoothedDiff = sm, lastJump = lj, lastRateAdjust = lra,
      playbackBoost = boost, latestPlayState = Some ps, waitingForSync = False,
      abandonLoad = False, lastTimingCheck = Some 1500, jumpIfNeeded = False,
      playIcon = icon, enableSoundIcon = False, reports = []\<rparr>"

section \<open>Properties\<close>

subsection \<open>The wrapping loop and the guarded seek position\<close>

lemma wrap_loop_le: "t \<le> d \<Longrightarrow> wrap_loop t d = Some t"
  by (subst wrap_loop.simps) simp

lemma wrap_loop_bounded:
  "0 < d \<Longrightarrow> t \<le> d * real n \<Longrightarrow> \<exists>r. wrap_loop t d = Some r \<and> r \<le> d \<and> r \<le> t"
proof (induction n arbitrary: t)
  case 0
  then have "t \<le> d" by simp
  then show ?case by (simp add: wrap_loop_le)
next
  case (Suc n)
  show ?case
  proof (cases "t \<le> d")
    case True
    then show ?thesis by (simp add: wrap_loop_le)
  next
    case False
    from Suc.prems have "t - d \<le> d * real n" by (simp add: algebra_simps)
    from Suc.IH [OF Suc.prems(1) this]
    obtain r where r: "wrap_loop (t - d) d = Some r" "r \<le> d" "r \<le> t - d" by blast
    from False have "wrap_loop t d = wrap_loop (t - d) d"
      by (subst wrap_loop.simps) simp
    with r Suc.prems(1) show ?thesis by simp
  qed
qed

lemma wrap_loop_total:
  assumes "0 < d"
  shows "\<exists>r. wrap_loop t d = Some r \<and> r \<le> d \<and> r \<le> t"
proof -
  obtain n :: nat where "t / d \<le> real n"
    using real_arch_simple by blast
  with assms have "t \<le> d * real n"
    by (simp add: pos_divide_le_eq mult.commute)
  with assms show ?thesis by (rule wrap_loop_bounded)
qed

lemma wrappedTime_total:
  assumes "duration av = Some d" "0 < d"
  shows "\<exists>r. wrappedTime av p g = Inr r \<and> r \<le> d \<and> r \<le> p \<and> (g \<longrightarrow> r \<le> d - 0.1)"
proof -
  from wrap_loop_total [OF assms(2), of p]
  obtain r where "wrap_loop p d = Some r" "r \<le> d" "r \<le> p" by blast
  with assms show ?thesis by (auto simp: wrappedTime_def min_def)
qed

lemma wrappedTime_unchanged:
  assumes "duration av = Some d" "p \<le> d - 0.1"
  shows "wrappedTime av p g = Inr p"
proof -
  from assms(2) have "p \<le> d" by simp
  then have "wrap_loop p d = Some p" by (rule wrap_loop_le)
  with assms show ?thesis by (simp add: wrappedTime_def)
qed

lemma wrappedTime_unknown: "duration av = None \<Longrightarrow> wrappedTime av p g = Inr p"
  by (simp add: wrappedTime_def)

lemma play_total:
  assumes "duration av = Some d" "0 < d"
  shows "\<exists>av'. play p av = Inr av' \<and> currentTime (audio av') \<le> d - 0.1
           \<and> calls av' = calls av @ [Play p] \<and> duration av' = duration av"
proof -
  from wrappedTime_total [OF assms, of p True]
  obtain r where "wrappedTime av p True = Inr r" "r \<le> d - 0.1" by blast
  then show ?thesis by (simp add: play_def)
qed

lemma pause_total:
  assumes "duration av = Some d" "0 < d"
  shows "\<exists>av'. pause (Some p) av = Inr av' \<and> currentTime (audio av') \<le> d - 0.1
           \<and> calls av' = calls av @ [Pause (Some p)] \<and> duration av' = duration av"
proof -
  let ?av = "av\<lparr>av_isPlaying := False, av_isBlocked := False,
                calls := calls av @ [Pause (Some p)]\<rparr>"
  from assms have "duration ?av = Some d" by simp
  from wrappedTime_total [OF this assms(2), of p True]
  obtain r where "wrappedTime ?av p True = Inr r" "r \<le> d - 0.1" by blast
  then show ?thesis by (simp add: pause_def setStatic_def)
qed

subsection \<open>Applying a play state\<close>

lemma applyPlayState_playing:
  assumes "audioView v = Some av" "\<not> waitingForSync v" "latestPlayState v = Some ps"
    "isPlaying ps"
    "play ((sessionNow - num_of (startOffset ps)) / 1000 + 0.1)
       (av\<lparr>audio := (audio av)\<lparr>playbackRate := 1 + playbackBoost v * 0.01\<rparr>\<rparr>) = Inr av2"
  shows "applyPlayState now sessionNow v =
           Inr (v\<lparr>lastJump := None, smoothedDiff := None, playIcon := False,
                  lastRateAdjust := Some now, jumpIfNeeded := False, audioView := Some av2\<rparr>)"
  using assms by (simp add: applyPlayState_def calculateAudioTime_def randomOffset_def Let_def)

lemma applyPlayState_paused:
  assumes "audioView v = Some av" "\<not> waitingForSync v" "latestPlayState v = Some ps"
    "\<not> isPlaying ps"
    "pause (Some (num_of (pausedTime ps))) av = Inr av'"
  shows "applyPlayState now sessionNow v =
           Inr (v\<lparr>playIcon := True, enableSoundIcon := False, audioView := Some av'\<rparr>)"
  using assms by (simp add: applyPlayState_def)

lemma applyPlayState_latest:
  "applyPlayState now sessionNow v = Inr v' \<Longrightarrow> latestPlayState v' = latestPlayState v"
  by (auto simp: applyPlayState_def calculateAudioTime_def Let_def
           split: option.splits if_splits sum.splits)

lemmas apply_eval =
  applyPlayState_def playStateChanged_def calculateAudioTime_def play_def pause_def
  setStatic_def wrappedTime_def wrap_loop.simps num_of_def randomOffset_def
  assetsLoaded_def assetsChanged_def disposeOfAudio_def newAudioView_def
  setAssets_def setPlayState_def publish_def init_model_def
  constructed_def track_def audience_def Let_def

lemma loaded_paused:
  "assetsLoaded 1000 1000 True (newAudioView (Some 60))
     (assetsChanged True (setAssets sampleAudio sampleVideo init_model) constructed)
   = Inr (audience (track 0 1 1 False False [Pause (Some 0)])
            \<lparr>isPlaying = False, startOffset = None, pausedTime = Some 0\<rparr>
            0 None None None True)"
  by (simp add: apply_eval)

lemma scenario_A:
  "playStateChanged 10000 10000 \<lparr>isPlaying = True, startOffset = Some 5000, pausedTime = None\<rparr>
     (audience (track 0 1 1 False False [Pause (Some 0)])
            \<lparr>isPlaying = False, startOffset = None, pausedTime = Some 0\<rparr>
            0 None None None True)
   = Inr (audience (track 5.1 1 0.2 True True [Pause (Some 0), Play 5.1])
            \<lparr>isPlaying = True, startOffset = Some 5000, pausedTime = None\<rparr>
            0 None None (Some 10000) False)"
  by (simp add: apply_eval)

lemma applyPlayState_calls:
  assumes "applyPlayState now sessionNow v = Inr v'" "audioView v = Some av"
    "\<not> waitingForSync v"
  shows "\<exists>av' c. audioView v' = Some av' \<and> calls av' = calls av @ [c]"
  using assms
  by (auto simp: applyPlayState_def calculateAudioTime_def play_def pause_def setStatic_def
      Let_def split: option.splits if_splits sum.splits)

lemma applyPlayState_bookkeeping:
  assumes "audioView v = Some av" "\<not> waitingForSync v" "latestPlayState v = Some ps"
    "duration av = Some d" "0 < d"
  shows "\<exists>v' av'. applyPlayState now sessionNow v = Inr v' \<and> audioView v' = Some av' \<and>
         playbackBoost v' = playbackBoost v \<and>
         (isPlaying ps \<longrightarrow>
            smoothedDiff v' = None \<and> lastJump v' = None \<and> lastRateAdjust v' = Some now \<and>
            playbackRate (audio av') = 1 + playbackBoost v * 0.01) \<and>
         (\<not> isPlaying ps \<longrightarrow>
            smoothedDiff v' = smoothedDiff v \<and> lastJump v' = lastJump v \<and>
            lastRateAdjust v' = lastRateAdjust v \<and>
            playbackRate (audio av') = playbackRate (audio av))"
proof (cases "isPlaying ps")
  case True
  let ?av1 = "av\<lparr>audio := (audio av)\<lparr>playbackRate := 1 + playbackBoost v * 0.01\<rparr>\<rparr>"
  let ?p = "(sessionNow - num_of (startOffset ps)) / 1000 + 0.1"
  from assms(4) have "duration ?av1 = Some d" by simp
  from wrappedTime_total [OF this assms(5), of ?p True]
  obtain r where r: "wrappedTime ?av1 ?p True = Inr r" by blast
  let ?av2 = "?av1\<lparr>audio := (audio ?av1)\<lparr>currentTime := r, volume := 0.2\<rparr>,
                 av_isPlaying := True, av_isBlocked := True,
                 calls := calls ?av1 @ [Play ?p]\<rparr>"
  from r have "play ?p ?av1 = Inr ?av2" by (simp add: play_def)
  from applyPlayState_playing [OF assms(1-3) True this, of now] True
  show ?thesis by simp
next
  case False
  let ?t = "num_of (pausedTime ps)"
  let ?av0 = "av\<lparr>av_isPlaying := False, av_isBlocked := False,
                 calls := calls av @ [Pause (Some ?t)]\<rparr>"
  from assms(4) have "duration ?av0 = Some d" by simp
  from wrappedTime_total [OF this assms(5), of ?t True]
  obtain r where r: "wrappedTime ?av0 ?t True = Inr r" by blast
  then have "pause (Some ?t) av = Inr (?av0\<lparr>audio := (audio ?av0)\<lparr>currentTime := r\<rparr>\<rparr>)"
    by (simp add: pause_def setStatic_def)
  from applyPlayState_paused [OF assms(1-3) False this, of now sessionNow] False
  show ?thesis by simp
qed

subsection \<open>The timing check\<close>

lemma checkPlaybackTiming_sample:
  assumes "audioView v = Some av" "av_isPlaying av" "\<not> av_isBlocked av"
    "latestPlayState v = Some ps"
    "wrappedTime av ((sessionNow - num_of (startOffset ps)) / 1000) False = Inr e"
  shows "checkPlaybackTiming now sessionNow v =
     (if withinHalfLoop av (currentTime (audio av) - e)
      then (case timingCorrection now (currentTime (audio av)) (currentTime (audio av) - e)
                   (v, av, newReport e av) of
              Inl x \<Rightarrow> Inl x
            | Inr c \<Rightarrow> Inr (finishCheck (currentTime (audio av)) c))
      else Inr (finishCheck (currentTime (audio av)) (v, av, newReport e av)))"
  using assms by (simp add: checkPlaybackTiming_def calculateAudioTime_def Let_def)

lemma checkPlaybackTiming_idle:
  "audioView v = Some av \<Longrightarrow> \<not> (av_isPlaying av \<and> \<not> av_isBlocked av) \<Longrightarrow>
     checkPlaybackTiming now sessionNow v = Inr v"
  by (auto simp add: checkPlaybackTiming_def)

lemmas check_eval =
  checkPlaybackTiming_def calculateAudioTime_def follower_def measured_def
  newReport_def wrappedTime_def wrap_loop.simps withinHalfLoop_def timingCorrection_def
  audioDiffMSSmoothed_def rateAdjustment_def finishCheck_def aboutToLoop_def num_of_def
  desiredBoostPercent_def hysteresisBlock_def
  CHECK_INTERVAL_def THRESH_5_def THRESH_3_def THRESH_1_def THRESH_0_def lostTime_def Let_def

lemma timingCorrection_jump:
  assumes "s = audioDiffMSSmoothed (smoothedDiff v) (audioDiff * 1000)"
    "\<bar>s\<bar> > 500" "now - num_of (lastJump v) > 10000"
    "wrappedTime av (audioTime - s / 1000 + 0.2) True = Inr t"
  shows "timingCorrection now audioTime audioDiff (v, av, rep) =
     Inr (v\<lparr>smoothedDiff := None, lastJump := Some now\<rparr>,
          av\<lparr>audio := (audio av)\<lparr>currentTime := t\<rparr>\<rparr>,
          rep\<lparr>r_audioDiffMS := Some (of_int (round (audioDiff * 1000))),
              r_audioDiffMSSmoothed := Some s,
              r_jumped := Some (- of_int (round s))\<rparr>)"
  using assms by (simp add: timingCorrection_def lostTime_def Let_def)

lemma timingCorrection_no_jump:
  assumes "s = audioDiffMSSmoothed (smoothedDiff v) (audioDiff * 1000)"
    "\<not> (\<bar>s\<bar> > 500 \<and> now - num_of (lastJump v) > 10000)"
  shows "timingCorrection now audioTime audioDiff (v, av, rep) =
     Inr (rateAdjustment now s
            (v\<lparr>smoothedDiff := Some s\<rparr>, av,
             rep\<lparr>r_audioDiffMS := Some (of_int (round (audioDiff * 1000))),
                 r_audioDiffMSSmoothed := Some s\<rparr>))"
  using assms by (auto simp: timingCorrection_def Let_def)

lemma rateAdjustment_frame:
  assumes "rateAdjustment now s (v, av, rep) = (v', av', rep')"
  shows "smoothedDiff v' = smoothedDiff v" "lastJump v' = lastJump v"
    "currentTime (audio av') = currentTime (audio av)" "volume (audio av') = volume (audio av)"
    "duration av' = duration av" "calls av' = calls av"
    "r_jumped rep' = r_jumped rep" "r_audioDiffMSSmoothed rep' = r_audioDiffMSSmoothed rep"
    "reports v' = reports v" "latestPlayState v' = latestPlayState v"
  using assms by (auto simp: rateAdjustment_def Let_def split: if_splits)

lemma rateAdjustment_due:
  assumes "now - num_of (lastRateAdjust v) \<ge> 3000"
    "rateAdjustment now s (v, av, rep) = (v', av', rep')"
  shows "lastRateAdjust v' = Some now"
    "playbackBoost v' =
       (if desiredBoostPercent \<bar>s\<bar> (sgn s) = 0 \<and> sgn (playbackBoost v) = - sgn s \<and> 25 \<le> \<bar>s\<bar>
        then playbackBoost v else desiredBoostPercent \<bar>s\<bar> (sgn s))"
    "playbackRate (audio av') =
       (if playbackBoost v' = playbackBoost v then playbackRate (audio av)
        else 1 + playbackBoost v' * 0.01)"
  using assms by (auto simp: rateAdjustment_def hysteresisBlock_def CHECK_INTERVAL_def
      THRESH_0_def Let_def split: if_splits)

lemma rateAdjustment_not_due:
  assumes "\<not> now - num_of (lastRateAdjust v) \<ge> 3000"
  shows "rateAdjustment now s (v, av, rep) = (v, av, rep)"
  using assms by (simp add: rateAdjustment_def CHECK_INTERVAL_def)

lemma finishCheck_fields:
  "smoothedDiff (finishCheck t (v, av, rep)) = smoothedDiff v"
  "lastRateAdjust (finishCheck t (v, av, rep)) = lastRateAdjust v"
  "playbackBoost (finishCheck t (v, av, rep)) = playbackBoost v"
  "latestPlayState (finishCheck t (v, av, rep)) = latestPlayState v"
  "reports (finishCheck t (v, av, rep)) = reports v @ [rep]"
  "audioView (finishCheck t (v, av, rep)) = Some (av\<lparr>audio := (audio av)\<lparr>volume := 1\<rparr>\<rparr>)"
  "lastJump (finishCheck t (v, av, rep)) = (if aboutToLoop av t then None else lastJump v)"
  by (simp_all add: finishCheck_def Let_def)

lemma follower_fields:
  "audioView (follower pos vol boost sm lj lra reps) =
     Some \<lparr>duration = Some 60,
           audio = \<lparr>currentTime = pos, playbackRate = 1 + boost * 0.01, volume = vol\<rparr>,
           av_isPlaying = True, av_isBlocked = False,
           calls = [Pause (Some 0), Play 5.1]\<rparr>"
  "latestPlayState (follower pos vol boost sm lj lra reps) =
     Some \<lparr>isPlaying = True, startOffset = Some 5000, pausedTime = None\<rparr>"
  "smoothedDiff (follower pos vol boost sm lj lra reps) = sm"
  "lastJump (follower pos vol boost sm lj lra reps) = lj"
  "lastRateAdjust (follower pos vol boost sm lj lra reps) = lra"
  "playbackBoost (follower pos vol boost sm lj lra reps) = boost"
  "reports (follower pos vol boost sm lj lra reps) = reps"
  by (simp_all add: follower_def)



lemma jump_seek_guarded:
  assumes "audioView v = Some av" "duration av = Some d" "0 < d"
    "checkPlaybackTiming now sessionNow v = Inr v'"
    "reports v' = reports v @ [rep]" "r_jumped rep \<noteq> None"
  shows "\<exists>av'. audioView v' = Some av' \<and> currentTime (audio av') \<le> d - 0.1"
proof -
  have act: "av_isPlaying av \<and> \<not> av_isBlocked av"
  proof (rule ccontr)
    assume "\<not> ?thesis"
    with assms(1,4) have "v' = v" by (simp add: checkPlaybackTiming_idle)
    with assms(5) show False by simp
  qed
  from act assms(1,4) obtain ps where ps: "latestPlayState v = Some ps"
    by (cases "latestPlayState v")
       (auto simp: checkPlaybackTiming_def calculateAudioTime_def)
  from act assms(1,4) ps obtain e where
    e: "wrappedTime av ((sessionNow - num_of (startOffset ps)) / 1000) False = Inr e"
    by (cases "wrappedTime av ((sessionNow - num_of (startOffset ps)) / 1000) False")
       (auto simp: checkPlaybackTiming_def calculateAudioTime_def)
  let ?t = "currentTime (audio av)"
  note shape = checkPlaybackTiming_sample [OF assms(1) _ _ ps e, of now]
  define s where "s = audioDiffMSSmoothed (smoothedDiff v) ((?t - e) * 1000)"
  let ?rep1 = "(newReport e av)\<lparr>r_audioDiffMS := Some (of_int (round ((?t - e) * 1000))),
                 r_audioDiffMSSmoothed := Some s\<rparr>"
  have within: "withinHalfLoop av (?t - e)"
  proof (rule ccontr)
    assume "\<not> ?thesis"
    with shape act assms(4) have "v' = finishCheck ?t (v, av, newReport e av)" by simp
    with assms(5,6) show False by (auto simp: finishCheck_fields newReport_def)
  qed
  have jc: "\<bar>s\<bar> > 500 \<and> now - num_of (lastJump v) > 10000"
  proof (rule ccontr)
    assume n: "\<not> ?thesis"
    from timingCorrection_no_jump [OF s_def n]
    have tc: "timingCorrection now ?t (?t - e) (v, av, newReport e av)
          = Inr (rateAdjustment now s (v\<lparr>smoothedDiff := Some s\<rparr>, av, ?rep1))" .
    obtain v2 av2 rep2 where
      ra: "rateAdjustment now s (v\<lparr>smoothedDiff := Some s\<rparr>, av, ?rep1) = (v2, av2, rep2)"
      by (cases "rateAdjustment now s (v\<lparr>smoothedDiff := Some s\<rparr>, av, ?rep1)") auto
    from shape act within tc ra assms(4)
    have "v' = finishCheck ?t (v2, av2, rep2)" by simp
    moreover note fr = rateAdjustment_frame [OF ra]
    from fr(7) have "r_jumped rep2 = None" by (simp add: newReport_def)
    moreover from fr(9) have "reports v2 = reports v" by simp
    ultimately show False using assms(5,6) by (auto simp: finishCheck_fields)
  qed
  from wrappedTime_total [OF assms(2,3), of "?t - s / 1000 + 0.2" True]
  obtain r where r: "wrappedTime av (?t - s / 1000 + 0.2) True = Inr r" "r \<le> d - 0.1"
    by blast
  from jc have "\<bar>s\<bar> > 500" "now - num_of (lastJump v) > 10000" by simp_all
  from timingCorrection_jump [OF s_def this r(1), where rep = "newReport e av"]
    shape act within assms(4)
  have "v' = finishCheck ?t (v\<lparr>smoothedDiff := None, lastJump := Some now\<rparr>,
          av\<lparr>audio := (audio av)\<lparr>currentTime := r\<rparr>\<rparr>,
          ?rep1\<lparr>r_jumped := Some (- of_int (round s))\<rparr>)" by simp
  with r(2) show ?thesis by (simp add: finishCheck_fields)
qed

lemma accepted_sample_outcome:
  assumes "audioView v = Some av" "av_isPlaying av" "\<not> av_isBlocked av"
    "latestPlayState v = Some ps"
    "wrappedTime av ((sessionNow - num_of (startOffset ps)) / 1000) False = Inr e"
    "duration av = Some d" "\<bar>currentTime (audio av) - e\<bar> < d / 2"
    "s = audioDiffMSSmoothed (smoothedDiff v) ((currentTime (audio av) - e) * 1000)"
  shows "\<exists>v' av' rep. checkPlaybackTiming now sessionNow v = Inr v' \<and>
      audioView v' = Some av' \<and> reports v' = reports v @ [rep] \<and>
      r_audioDiffMSSmoothed rep = Some s \<and>
      ((r_jumped rep \<noteq> None) = (\<bar>s\<bar> > 500 \<and> now - num_of (lastJump v) > 10000)) \<and>
      (r_jumped rep \<noteq> None \<longrightarrow>
         wrappedTime av (currentTime (audio av) - s / 1000 + 0.2) True
           = Inr (currentTime (audio av')) \<and>
         smoothedDiff v' = None \<and>
         lastJump v' = (if d - currentTime (audio av) < 1.5 then None else Some now)) \<and>
      (r_jumped rep = None \<longrightarrow>
         currentTime (audio av') = currentTime (audio av) \<and>
         smoothedDiff v' = Some s \<and>
         lastJump v' = (if d - currentTime (audio av) < 1.5 then None else lastJump v))"
proof -
  let ?t = "currentTime (audio av)"
  let ?rep1 = "(newReport e av)\<lparr>r_audioDiffMS := Some (of_int (round ((?t - e) * 1000))),
                 r_audioDiffMSSmoothed := Some s\<rparr>"
  from assms(6,7) have w: "withinHalfLoop av (?t - e)"
    by (simp add: withinHalfLoop_def)
  from assms(7) have dpos: "0 < d" by linarith
  note shape = checkPlaybackTiming_sample [OF assms(1-5), of now]
  have atl: "\<And>a. duration a = Some d \<Longrightarrow> aboutToLoop a ?t = (d - ?t < 1.5)"
    by (simp add: aboutToLoop_def)
  show ?thesis
  proof (cases "\<bar>s\<bar> > 500 \<and> now - num_of (lastJump v) > 10000")
    case True
    from wrappedTime_total [OF assms(6) dpos, of "?t - s / 1000 + 0.2" True]
    obtain r where r: "wrappedTime av (?t - s / 1000 + 0.2) True = Inr r" by blast
    let ?v1 = "v\<lparr>smoothedDiff := None, lastJump := Some now\<rparr>"
    let ?av1 = "av\<lparr>audio := (audio av)\<lparr>currentTime := r\<rparr>\<rparr>"
    let ?rep = "?rep1\<lparr>r_jumped := Some (- of_int (round s))\<rparr>"
    from True have "\<bar>s\<bar> > 500" "now - num_of (lastJump v) > 10000" by simp_all
    from timingCorrection_jump [OF assms(8) this r]
    have "timingCorrection now ?t (?t - e) (v, av, newReport e av) = Inr (?v1, ?av1, ?rep)" .
    with shape w have res: "checkPlaybackTiming now sessionNow v
        = Inr (finishCheck ?t (?v1, ?av1, ?rep))" by simp
    let ?v' = "finishCheck ?t (?v1, ?av1, ?rep)"
    let ?av' = "?av1\<lparr>audio := (audio ?av1)\<lparr>volume := 1\<rparr>\<rparr>"
    from assms(6) have "duration ?av1 = Some d" by simp
    note al = atl [OF this]
    have f: "audioView ?v' = Some ?av'" "reports ?v' = reports v @ [?rep]"
      "r_audioDiffMSSmoothed ?rep = Some s" "r_jumped ?rep \<noteq> None"
      "currentTime (audio ?av') = r" "smoothedDiff ?v' = None"
      "lastJump ?v' = (if d - ?t < 1.5 then None else Some now)"
      by (simp_all add: finishCheck_fields al)
    from res f True r show ?thesis
      by (intro exI [of _ ?v'] exI [of _ ?av'] exI [of _ ?rep]) (simp only: simp_thms)
  next
    case False
    with assms(8) have tc: "timingCorrection now ?t (?t - e) (v, av, newReport e av)
          = Inr (rateAdjustment now s (v\<lparr>smoothedDiff := Some s\<rparr>, av, ?rep1))"
      by (rule timingCorrection_no_jump)
    obtain v2 av2 rep2 where
      ra: "rateAdjustment now s (v\<lparr>smoothedDiff := Some s\<rparr>, av, ?rep1) = (v2, av2, rep2)"
      by (cases "rateAdjustment now s (v\<lparr>smoothedDiff := Some s\<rparr>, av, ?rep1)") auto
    from shape w tc ra have res: "checkPlaybackTiming now sessionNow v
        = Inr (finishCheck ?t (v2, av2, rep2))" by simp
    note fr = rateAdjustment_frame [OF ra]
    let ?v' = "finishCheck ?t (v2, av2, rep2)"
    let ?av' = "av2\<lparr>audio := (audio av2)\<lparr>volume := 1\<rparr>\<rparr>"
    from fr(5) assms(6) have "duration av2 = Some d" by simp
    note al = atl [OF this]
    have f: "audioView ?v' = Some ?av'" "reports ?v' = reports v @ [rep2]"
      "r_audioDiffMSSmoothed rep2 = Some s" "r_jumped rep2 = None"
      "currentTime (audio ?av') = ?t" "smoothedDiff ?v' = Some s"
      "lastJump ?v' = (if d - ?t < 1.5 then None else lastJump v)"
      using fr by (simp_all add: finishCheck_fields al newReport_def)
    from res f False show ?thesis
      by (intro exI [of _ ?v'] exI [of _ ?av'] exI [of _ rep2]) (simp only: simp_thms)
  qed
qed

subsection \<open>Smoothing\<close>

lemma smoothed_first: "audioDiffMSSmoothed None x = of_int (round x)"
  by (simp add: audioDiffMSSmoothed_def)

lemma smoothed_later:
  "audioDiffMSSmoothed (Some prev) x = of_int (round (0.3 * x + 0.7 * prev))"
  by (simp add: audioDiffMSSmoothed_def)

lemma smoothed_int: "audioDiffMSSmoothed prev x \<in> \<int>"
  by (cases prev) (simp_all add: audioDiffMSSmoothed_def)

lemma smooth_step_below:
  assumes "s \<in> \<int>" "s \<le> d"
  shows "s \<le> audioDiffMSSmoothed (Some s) d" "audioDiffMSSmoothed (Some s) d \<le> d"
proof -
  from assms(1) obtain k :: int where k: "s = of_int k" by (auto elim: Ints_cases)
  let ?x = "0.3 * d + 0.7 * s"
  have "s \<le> ?x" using assms(2) by simp
  then have "round s \<le> round ?x" by (rule round_mono)
  then have "k \<le> round ?x" by (simp add: k)
  then show "s \<le> audioDiffMSSmoothed (Some s) d"
    by (simp add: smoothed_later k)
  from assms(2) k have kf: "k \<le> \<lfloor>d\<rfloor>" by (simp add: le_floor_iff)
  have "d < of_int \<lfloor>d\<rfloor> + 1" by linarith
  moreover from kf have "s \<le> of_int \<lfloor>d\<rfloor>" by (simp add: k)
  ultimately have "?x + 1 / 2 < of_int \<lfloor>d\<rfloor> + 1" by linarith
  then have "?x + 1 / 2 < of_int (\<lfloor>d\<rfloor> + 1)" by simp
  then have "\<lfloor>?x + 1 / 2\<rfloor> < \<lfloor>d\<rfloor> + 1" by (simp only: floor_less_iff)
  then have "round ?x \<le> \<lfloor>d\<rfloor>" by (simp add: round_def)
  then have "of_int (round ?x) \<le> (of_int \<lfloor>d\<rfloor> :: real)" by simp
  also have "\<dots> \<le> d" by simp
  finally show "audioDiffMSSmoothed (Some s) d \<le> d" by (simp add: smoothed_later)
qed

lemma smooth_step_above:
  assumes "s \<in> \<int>" "d \<le> s"
  shows "d \<le> audioDiffMSSmoothed (Some s) d" "audioDiffMSSmoothed (Some s) d \<le> s"
proof -
  from assms(1) obtain k :: int where k: "s = of_int k" by (auto elim: Ints_cases)
  let ?x = "0.3 * d + 0.7 * s"
  have "?x \<le> s" using assms(2) by simp
  then have "round ?x \<le> round s" by (rule round_mono)
  then have "round ?x \<le> k" by (simp add: k)
  then show "audioDiffMSSmoothed (Some s) d \<le> s"
    by (simp add: smoothed_later k)
  from assms(2) k have kc: "\<lceil>d\<rceil> \<le> k" by (simp add: ceiling_le_iff)
  have "of_int \<lceil>d\<rceil> - 1 < d" by linarith
  moreover from kc have "of_int \<lceil>d\<rceil> \<le> s" by (simp add: k)
  ultimately have "of_int \<lceil>d\<rceil> \<le> ?x + 1 / 2" by linarith
  then have "\<lceil>d\<rceil> \<le> \<lfloor>?x + 1 / 2\<rfloor>" by (simp only: le_floor_iff)
  then have "\<lceil>d\<rceil> \<le> round ?x" by (simp add: round_def)
  then have "(of_int \<lceil>d\<rceil> :: real) \<le> of_int (round ?x)" by simp
  moreover have "d \<le> of_int \<lceil>d\<rceil>" by simp
  ultimately have "d \<le> of_int (round ?x)" by linarith
  then show "d \<le> audioDiffMSSmoothed (Some s) d" by (simp add: smoothed_later)
qed

lemma smooth_fixed_bound:
  assumes "audioDiffMSSmoothed (Some s) d = s"
  shows "\<bar>d - s\<bar> \<le> 5 / 3"
proof -
  let ?x = "0.3 * d + 0.7 * s"
  from assms have r: "of_int (round ?x) = s" by (simp add: smoothed_later)
  have "of_int (round ?x) \<le> ?x + 1 / 2" by (rule of_int_round_le)
  moreover have "?x - 1 / 2 \<le> of_int (round ?x)" by (rule of_int_round_ge)
  ultimately have "s \<le> ?x + 1 / 2" "?x - 1 / 2 \<le> s" by (simp_all only: r)
  then show ?thesis by linarith
qed

lemma smoothed_seq_int: "s \<in> \<int> \<Longrightarrow> smoothed_seq d s n \<in> \<int>"
  by (cases n) (simp_all add: smoothed_int)

lemma smoothed_seq_below: "s \<in> \<int> \<Longrightarrow> s \<le> d \<Longrightarrow> smoothed_seq d s n \<le> d"
  by (induction n) (simp_all add: smooth_step_below smoothed_seq_int)

lemma smoothed_seq_above: "s \<in> \<int> \<Longrightarrow> d \<le> s \<Longrightarrow> d \<le> smoothed_seq d s n"
  by (induction n) (simp_all add: smooth_step_above smoothed_seq_int)

lemma smoothed_seq_shift:
  "smoothed_seq d s (Suc n) = smoothed_seq d (audioDiffMSSmoothed (Some s) d) n"
  by (induction n) simp_all

lemma smoothed_seq_fixed:
  "audioDiffMSSmoothed (Some s) d = s \<Longrightarrow> smoothed_seq d s n = s"
  by (induction n) simp_all

lemma smooth_step_progress:
  assumes "s \<in> \<int>" "audioDiffMSSmoothed (Some s) d \<noteq> s"
  shows "\<bar>d - audioDiffMSSmoothed (Some s) d\<bar> \<le> \<bar>d - s\<bar> - 1"
proof -
  let ?s' = "audioDiffMSSmoothed (Some s) d"
  from assms(1) obtain k :: int where k: "s = of_int k" by (auto elim: Ints_cases)
  have "?s' \<in> \<int>" by (rule smoothed_int)
  then obtain k' :: int where k': "?s' = of_int k'" by (auto elim: Ints_cases)
  have ne: "k' \<noteq> k"
  proof
    assume "k' = k"
    with k' k have "?s' = s" by simp
    with assms(2) show False by simp
  qed
  show ?thesis
  proof (cases "s \<le> d")
    case True
    from smooth_step_below [OF assms(1) True] have b: "s \<le> ?s'" "?s' \<le> d" .
    from b(1) k' k have "k \<le> k'" by simp
    with ne have "k + 1 \<le> k'" by simp
    then have "of_int k + 1 \<le> (of_int k' :: real)" by linarith
    with k' k have "s + 1 \<le> ?s'" by simp
    with b(2) True show ?thesis by linarith
  next
    case False
    then have ds: "d \<le> s" by simp
    from smooth_step_above [OF assms(1) ds] have b: "d \<le> ?s'" "?s' \<le> s" .
    from b(2) k' k have "k' \<le> k" by simp
    with ne have "k' + 1 \<le> k" by simp
    then have "of_int k' + 1 \<le> (of_int k :: real)" by linarith
    with k' k have "?s' + 1 \<le> s" by simp
    with b(1) ds show ?thesis by linarith
  qed
qed

lemma smoothed_seq_settles_bounded:
  "s \<in> \<int> \<Longrightarrow> \<bar>d - s\<bar> \<le> real m \<Longrightarrow>
     \<exists>N. \<forall>n\<ge>N. smoothed_seq d s n = smoothed_seq d s N \<and> \<bar>d - smoothed_seq d s N\<bar> \<le> 5 / 3"
proof (induction m arbitrary: s)
  case 0
  have "audioDiffMSSmoothed (Some s) d = s"
  proof (rule ccontr)
    assume "audioDiffMSSmoothed (Some s) d \<noteq> s"
    from smooth_step_progress [OF "0.prems"(1) this] "0.prems"(2) show False by simp
  qed
  then have "\<forall>n\<ge>0. smoothed_seq d s n = smoothed_seq d s 0 \<and> \<bar>d - smoothed_seq d s 0\<bar> \<le> 5 / 3"
    using smooth_fixed_bound [of s d] by (simp add: smoothed_seq_fixed)
  then show ?case ..
next
  case (Suc m)
  let ?s' = "audioDiffMSSmoothed (Some s) d"
  show ?case
  proof (cases "?s' = s")
    case True
    then have "\<forall>n\<ge>0. smoothed_seq d s n = smoothed_seq d s 0 \<and> \<bar>d - smoothed_seq d s 0\<bar> \<le> 5 / 3"
      using smooth_fixed_bound [of s d] by (simp add: smoothed_seq_fixed)
    then show ?thesis ..
  next
    case False
    from smooth_step_progress [OF Suc.prems(1) False] Suc.prems(2)
    have "\<bar>d - ?s'\<bar> \<le> real m" by simp
    from Suc.IH [OF smoothed_int this]
    obtain N where N: "\<forall>n\<ge>N. smoothed_seq d ?s' n = smoothed_seq d ?s' N \<and>
        \<bar>d - smoothed_seq d ?s' N\<bar> \<le> 5 / 3" by blast
    have "\<forall>n\<ge>Suc N. smoothed_seq d s n = smoothed_seq d s (Suc N) \<and>
        \<bar>d - smoothed_seq d s (Suc N)\<bar> \<le> 5 / 3"
    proof (intro allI impI)
      fix n assume "Suc N \<le> n"
      then obtain n' where n': "n = Suc n'" "N \<le> n'" by (cases n) auto
      from N n'(2) have e: "smoothed_seq d ?s' n' = smoothed_seq d ?s' N"
        and b: "\<bar>d - smoothed_seq d ?s' N\<bar> \<le> 5 / 3" by blast+
      show "smoothed_seq d s n = smoothed_seq d s (Suc N) \<and>
        \<bar>d - smoothed_seq d s (Suc N)\<bar> \<le> 5 / 3"
        unfolding n'(1) smoothed_seq_shift by (intro conjI) (rule e b)+
    qed
    then show ?thesis ..
  qed
qed

lemma smoothed_seq_settles:
  assumes "s \<in> \<int>"
  shows "\<exists>N. \<forall>n\<ge>N. smoothed_seq d s n = smoothed_seq d s N \<and>
           \<bar>d - smoothed_seq d s N\<bar> \<le> 5 / 3"
proof -
  obtain m :: nat where "\<bar>d - s\<bar> \<le> real m" using real_arch_simple by blast
  with assms show ?thesis by (rule smoothed_seq_settles_bounded)
qed

lemma smoothed_seq_monotone:
  assumes "s \<in> \<int>"
  shows "(s \<le> d \<longrightarrow> smoothed_seq d s n \<le> smoothed_seq d s (Suc n) \<and>
                       smoothed_seq d s (Suc n) \<le> d) \<and>
         (d \<le> s \<longrightarrow> d \<le> smoothed_seq d s (Suc n) \<and>
                       smoothed_seq d s (Suc n) \<le> smoothed_seq d s n)"
proof (intro conjI impI)
  assume b: "s \<le> d"
  from assms have i: "smoothed_seq d s n \<in> \<int>" by (rule smoothed_seq_int)
  from assms b have "smoothed_seq d s n \<le> d" by (rule smoothed_seq_below)
  from smooth_step_below [OF i this]
  show "smoothed_seq d s n \<le> smoothed_seq d s (Suc n)" "smoothed_seq d s (Suc n) \<le> d"
    by simp_all
next
  assume a: "d \<le> s"
  from assms have i: "smoothed_seq d s n \<in> \<int>" by (rule smoothed_seq_int)
  from assms a have "d \<le> smoothed_seq d s n" by (rule smoothed_seq_above)
  from smooth_step_above [OF i this]
  show "d \<le> smoothed_seq d s (Suc n)" "smoothed_seq d s (Suc n) \<le> smoothed_seq d s n"
    by simp_all
qed

subsection \<open>The model's commands\<close>

text \<open>
  Claim C7. \<^verbatim>\<open>setStartOffset(value)\<close> changes nothing and publishes nothing when the model
  is not playing. When it is playing, it sets \<open>startOffset\<close> to the value, leaves
  \<open>isPlaying\<close>, \<open>pausedTime\<close> and both assets as they were, and publishes exactly one
  further event, \<^verbatim>\<open>start-offset-changed\<close>, carrying the new value.
\<close>

theorem setStartOffset_frame:
  "(\<not> m_isPlaying m \<longrightarrow> setStartOffset so m = m) \<and>
   (m_isPlaying m \<longrightarrow>
      m_startOffset (setStartOffset so m) = Some so \<and>
      m_isPlaying (setStartOffset so m) = m_isPlaying m \<and>
      m_pausedTime (setStartOffset so m) = m_pausedTime m \<and>
      audioAsset (setStartOffset so m) = audioAsset m \<and>
      videoAsset (setStartOffset so m) = videoAsset m \<and>
      published (setStartOffset so m) = published m @ [StartOffsetChanged so])"
  by (simp add: setStartOffset_def publish_def)

theorem setStartOffset_frame_witness:
  "\<not> m_isPlaying (setAssets sampleAudio sampleVideo init_model) \<and>
   setStartOffset 7000 (setAssets sampleAudio sampleVideo init_model)
     = setAssets sampleAudio sampleVideo init_model \<and>
   m_isPlaying (setPlayState \<lparr>isPlaying = True, startOffset = Some 5000, pausedTime = None\<rparr>
                  (setAssets sampleAudio sampleVideo init_model)) \<and>
   m_startOffset
     (setStartOffset 7000
        (setPlayState \<lparr>isPlaying = True, startOffset = Some 5000, pausedTime = None\<rparr>
           (setAssets sampleAudio sampleVideo init_model))) = Some 7000 \<and>
   published
     (setStartOffset 7000
        (setPlayState \<lparr>isPlaying = True, startOffset = Some 5000, pausedTime = None\<rparr>
           (setAssets sampleAudio sampleVideo init_model)))
     = [StatusTick, AssetsChanged,
        PlayStateChanged \<lparr>isPlaying = True, startOffset = Some 5000, pausedTime = None\<rparr>,
        StartOffsetChanged 7000]"
proof -
  let ?paused = "setAssets sampleAudio sampleVideo init_model"
  let ?playing = "setPlayState \<lparr>isPlaying = True, startOffset = Some 5000, pausedTime = None\<rparr> ?paused"
  have p: "\<not> m_isPlaying ?paused"
    by (simp add: setAssets_def publish_def init_model_def)
  have q: "m_isPlaying ?playing"
    by (simp add: setPlayState_def publish_def)
  have e: "published ?playing = [StatusTick, AssetsChanged,
        PlayStateChanged \<lparr>isPlaying = True, startOffset = Some 5000, pausedTime = None\<rparr>]"
    by (simp add: setPlayState_def setAssets_def publish_def init_model_def)
  from setStartOffset_frame [of ?paused 7000] setStartOffset_frame [of ?playing 7000] p q e
  show ?thesis by simp
qed

subsection \<open>Discarded samples\<close>

text \<open>
  Claim C4. In a timing check whose raw difference between the element's position and the
  expected position is at least half the duration in magnitude, the sample is discarded:
  \<open>smoothedDiff\<close> keeps its value, the element is not sought, the playback rate and the
  rate boost are not changed, \<open>lastRateAdjust\<close> is not touched, no jump time is recorded
  (the jump record is at most cleared by the end-of-loop rule), and the report of the check
  carries no smoothed value, no jump and no new boost.
\<close>
theorem discarded_sample_frame:
  assumes "audioView v = Some av" "duration av = Some d" "latestPlayState v = Some ps"
    "wrappedTime av ((sessionNow - num_of (startOffset ps)) / 1000) False = Inr e"
    "\<bar>currentTime (audio av) - e\<bar> \<ge> d / 2"
  shows "\<exists>v' av'. checkPlaybackTiming now sessionNow v = Inr v' \<and> audioView v' = Some av' \<and>
           smoothedDiff v' = smoothedDiff v \<and>
           currentTime (audio av') = currentTime (audio av) \<and>
           playbackRate (audio av') = playbackRate (audio av) \<and>
           playbackBoost v' = playbackBoost v \<and>
           lastRateAdjust v' = lastRateAdjust v \<and>
           (lastJump v' = lastJump v \<or> lastJump v' = None) \<and>
           (reports v' = reports v \<or>
            (\<exists>rep. reports v' = reports v @ [rep] \<and> r_audioDiffMSSmoothed rep = None \<and>
                   r_jumped rep = None \<and> r_newBoost rep = None))"
proof (cases "av_isPlaying av \<and> \<not> av_isBlocked av")
  case False
  with assms(1) have "checkPlaybackTiming now sessionNow v = Inr v"
    by (rule checkPlaybackTiming_idle)
  with assms(1) show ?thesis by simp
next
  case True
  from assms(2,5) have "\<not> withinHalfLoop av (currentTime (audio av) - e)"
    by (simp add: withinHalfLoop_def)
  with True assms have
    "checkPlaybackTiming now sessionNow v =
       Inr (finishCheck (currentTime (audio av)) (v, av, newReport e av))"
    by (simp add: checkPlaybackTiming_sample)
  then show ?thesis by (simp add: finishCheck_fields newReport_def)
qed

theorem discarded_sample_frame_witness:
  "\<bar>1 - 59\<bar> \<ge> (60::real) / 2 \<and>
   (\<exists>v' av'. checkPlaybackTiming 64000 64000
                  (follower 1 0.2 1 (Some 40) (Some 60000) (Some 50000) []) = Inr v' \<and>
      audioView v' = Some av' \<and> smoothedDiff v' = Some 40 \<and>
      currentTime (audio av') = 1 \<and> playbackRate (audio av') = 1.01 \<and>
      playbackBoost v' = 1 \<and> lastRateAdjust v' = Some 50000)"
proof -
  let ?v = "follower 1 0.2 1 (Some 40) (Some 60000) (Some 50000) []"
  let ?av = "the (audioView ?v)"
  let ?ps = "\<lparr>isPlaying = True, startOffset = Some 5000, pausedTime = None\<rparr>"
  have h1: "audioView ?v = Some ?av" by (simp add: follower_def)
  have h2: "duration ?av = Some 60" by (simp add: follower_def)
  have h3: "latestPlayState ?v = Some ?ps" by (simp add: follower_def)
  have h4: "wrappedTime ?av ((64000 - num_of (startOffset ?ps)) / 1000) False = Inr 59"
    by (simp add: follower_def wrappedTime_def wrap_loop.simps num_of_def)
  have h5: "\<bar>currentTime (audio ?av) - 59\<bar> \<ge> 60 / 2" by (simp add: follower_def)
  from discarded_sample_frame [OF h1 h2 h3 h4 h5, of 64000]
  show ?thesis by (auto simp: follower_def)
qed

subsection \<open>Rate adjustment\<close>

text \<open>
  Claim C1. In a timing check that reaches the rate adjustment (the sample is accepted, no
  jump is made in this check, and at least 3000 ms have passed since \<open>lastRateAdjust\<close>),
  with \<open>s\<close> the smoothed difference in ms: the boost becomes 5, 3 or 1 percent for
  \<open>\<bar>s\<bar>\<close> above 300, 150 or 50, with the sign opposite to that of \<open>s\<close> (ahead slows
  down, behind speeds up); for \<open>\<bar>s\<bar> \<le> 50\<close> the boost stays what it was when its sign
  opposes the sign of \<open>s\<close> and \<open>\<bar>s\<bar> \<ge> 25\<close>, and becomes 0 otherwise. The playback rate
  is set to \<open>1 + boost / 100\<close> when the boost changes, and \<open>lastRateAdjust\<close> is set to
  the time of the check.
\<close>

theorem rate_adjustment_bands:
  assumes "audioView v = Some av" "av_isPlaying av" "\<not> av_isBlocked av"
    "latestPlayState v = Some ps"
    "wrappedTime av ((sessionNow - num_of (startOffset ps)) / 1000) False = Inr e"
    "duration av = Some d" "\<bar>currentTime (audio av) - e\<bar> < d / 2"
    "s = audioDiffMSSmoothed (smoothedDiff v) ((currentTime (audio av) - e) * 1000)"
    "\<not> (\<bar>s\<bar> > 500 \<and> now - num_of (lastJump v) > 10000)"
    "now - num_of (lastRateAdjust v) \<ge> 3000"
  shows "\<exists>v' av'. checkPlaybackTiming now sessionNow v = Inr v' \<and> audioView v' = Some av' \<and>
      lastRateAdjust v' = Some now \<and>
      (300 < \<bar>s\<bar> \<longrightarrow> playbackBoost v' = - sgn s * 5) \<and>
      (150 < \<bar>s\<bar> \<and> \<bar>s\<bar> \<le> 300 \<longrightarrow> playbackBoost v' = - sgn s * 3) \<and>
      (50 < \<bar>s\<bar> \<and> \<bar>s\<bar> \<le> 150 \<longrightarrow> playbackBoost v' = - sgn s * 1) \<and>
      (\<bar>s\<bar> \<le> 50 \<and> sgn (playbackBoost v) = - sgn s \<and> 25 \<le> \<bar>s\<bar> \<longrightarrow>
         playbackBoost v' = playbackBoost v) \<and>
      (\<bar>s\<bar> \<le> 50 \<and> \<not> (sgn (playbackBoost v) = - sgn s \<and> 25 \<le> \<bar>s\<bar>) \<longrightarrow>
         playbackBoost v' = 0) \<and>
      playbackRate (audio av') =
        (if playbackBoost v' = playbackBoost v then playbackRate (audio av)
         else 1 + playbackBoost v' * 0.01)"
proof -
  let ?t = "currentTime (audio av)"
  let ?v1 = "v\<lparr>smoothedDiff := Some s\<rparr>"
  let ?rep1 = "(newReport e av)\<lparr>r_audioDiffMS := Some (of_int (round ((?t - e) * 1000))),
                 r_audioDiffMSSmoothed := Some s\<rparr>"
  obtain v2 av2 rep2 where ra: "rateAdjustment now s (?v1, av, ?rep1) = (v2, av2, rep2)"
    by (cases "rateAdjustment now s (?v1, av, ?rep1)") auto
  from assms(6,7) have w: "withinHalfLoop av (?t - e)"
    by (simp add: withinHalfLoop_def)
  from assms(8,9) have "timingCorrection now ?t (?t - e) (v, av, newReport e av)
      = Inr (rateAdjustment now s (?v1, av, ?rep1))"
    by (rule timingCorrection_no_jump)
  with w ra assms(1-5) have res: "checkPlaybackTiming now sessionNow v = Inr (finishCheck ?t (v2, av2, rep2))"
    by (simp add: checkPlaybackTiming_sample)
  from assms(10) have due: "now - num_of (lastRateAdjust ?v1) \<ge> 3000" by simp
  note d = rateAdjustment_due [OF due ra]
  have boost: "playbackBoost v2 =
       (if desiredBoostPercent \<bar>s\<bar> (sgn s) = 0 \<and> sgn (playbackBoost v) = - sgn s \<and> 25 \<le> \<bar>s\<bar>
        then playbackBoost v else desiredBoostPercent \<bar>s\<bar> (sgn s))"
    using d(2) by simp
  have z: "desiredBoostPercent \<bar>s\<bar> (sgn s) = 0 \<longleftrightarrow> \<bar>s\<bar> \<le> 50"
    by (auto simp: desiredBoostPercent_def THRESH_5_def THRESH_3_def THRESH_1_def sgn_real_def)
  have b5: "300 < \<bar>s\<bar> \<Longrightarrow> desiredBoostPercent \<bar>s\<bar> (sgn s) = - sgn s * 5"
    and b3: "150 < \<bar>s\<bar> \<Longrightarrow> \<bar>s\<bar> \<le> 300 \<Longrightarrow> desiredBoostPercent \<bar>s\<bar> (sgn s) = - sgn s * 3"
    and b1: "50 < \<bar>s\<bar> \<Longrightarrow> \<bar>s\<bar> \<le> 150 \<Longrightarrow> desiredBoostPercent \<bar>s\<bar> (sgn s) = - sgn s * 1"
    and b0: "\<bar>s\<bar> \<le> 50 \<Longrightarrow> desiredBoostPercent \<bar>s\<bar> (sgn s) = 0"
    by (simp_all add: desiredBoostPercent_def THRESH_5_def THRESH_3_def THRESH_1_def)
  have rate: "playbackRate (audio av2) =
        (if playbackBoost v2 = playbackBoost v then playbackRate (audio av)
         else 1 + playbackBoost v2 * 0.01)"
    using d(3) by simp
  have B: "playbackBoost v2 =
       (if \<bar>s\<bar> \<le> 50 \<and> sgn (playbackBoost v) = - sgn s \<and> 25 \<le> \<bar>s\<bar>
        then playbackBoost v else desiredBoostPercent \<bar>s\<bar> (sgn s))"
    unfolding boost z ..
  have c5: "300 < \<bar>s\<bar> \<longrightarrow> playbackBoost v2 = - sgn s * 5"
    using B b5 by auto
  have c3: "150 < \<bar>s\<bar> \<and> \<bar>s\<bar> \<le> 300 \<longrightarrow> playbackBoost v2 = - sgn s * 3"
    using B b3 by auto
  have c1: "50 < \<bar>s\<bar> \<and> \<bar>s\<bar> \<le> 150 \<longrightarrow> playbackBoost v2 = - sgn s * 1"
    using B b1 by auto
  have ch: "\<bar>s\<bar> \<le> 50 \<and> sgn (playbackBoost v) = - sgn s \<and> 25 \<le> \<bar>s\<bar> \<longrightarrow>
         playbackBoost v2 = playbackBoost v"
    using B by auto
  have c0: "\<bar>s\<bar> \<le> 50 \<and> \<not> (sgn (playbackBoost v) = - sgn s \<and> 25 \<le> \<bar>s\<bar>) \<longrightarrow>
         playbackBoost v2 = 0"
    using B b0 by auto
  let ?v' = "finishCheck ?t (v2, av2, rep2)"
  let ?av' = "av2\<lparr>audio := (audio av2)\<lparr>volume := 1\<rparr>\<rparr>"
  have f: "audioView ?v' = Some ?av'" "lastRateAdjust ?v' = Some now"
    "playbackBoost ?v' = playbackBoost v2" "playbackRate (audio ?av') = playbackRate (audio av2)"
    by (simp_all add: finishCheck_fields d(1))
  from res f c5 c3 c1 ch c0 rate show ?thesis
    by (intro exI [of _ ?v'] exI [of _ ?av']) (simp only: simp_thms)
qed

theorem rate_adjustment_bands_witness:
  "(\<exists>v'. checkPlaybackTiming 15000 15000 (follower 9.97 1 1 None None (Some 12000) []) = Inr v'
          \<and> playbackBoost v' = 1) \<and>
   (\<exists>v'. checkPlaybackTiming 15000 15000 (follower 9.98 1 1 None None (Some 12000) []) = Inr v'
          \<and> playbackBoost v' = 0) \<and>
   (\<exists>v'. checkPlaybackTiming 15000 15000 (follower 9.94 1 0 None None (Some 12000) []) = Inr v'
          \<and> playbackBoost v' = 1) \<and>
   (\<exists>v'. checkPlaybackTiming 15000 15000 (follower 9.84 1 0 None None (Some 12000) []) = Inr v'
          \<and> playbackBoost v' = 3) \<and>
   (\<exists>v'. checkPlaybackTiming 15000 15000 (follower 10.4 1 0 None None (Some 12000) []) = Inr v'
          \<and> playbackBoost v' = - 5)"
proof -
  let ?ps = "\<lparr>isPlaying = True, startOffset = Some 5000, pausedTime = None\<rparr>"
  let ?av = "\<lambda>pos boost. \<lparr>duration = Some 60,
           audio = \<lparr>currentTime = pos, playbackRate = 1 + boost * 0.01, volume = 1\<rparr>,
           av_isPlaying = True, av_isBlocked = False,
           calls = [Pause (Some 0), Play 5.1]\<rparr>"
  note ev = follower_fields audioDiffMSSmoothed_def num_of_def wrappedTime_def wrap_loop.simps
  have a: "\<exists>v'. checkPlaybackTiming 15000 15000
             (follower 9.97 1 1 None None (Some 12000) []) = Inr v' \<and> playbackBoost v' = 1"
    using rate_adjustment_bands [where v = "follower 9.97 1 1 None None (Some 12000) []"
        and av = "?av 9.97 1" and ps = ?ps and sessionNow = 15000 and e = 10 and d = 60
        and s = "- 30" and now = 15000]
    by (auto simp add: ev)
  have b: "\<exists>v'. checkPlaybackTiming 15000 15000
             (follower 9.98 1 1 None None (Some 12000) []) = Inr v' \<and> playbackBoost v' = 0"
    using rate_adjustment_bands [where v = "follower 9.98 1 1 None None (Some 12000) []"
        and av = "?av 9.98 1" and ps = ?ps and sessionNow = 15000 and e = 10 and d = 60
        and s = "- 20" and now = 15000]
    by (auto simp add: ev)
  have c: "\<exists>v'. checkPlaybackTiming 15000 15000
             (follower 9.94 1 0 None None (Some 12000) []) = Inr v' \<and> playbackBoost v' = 1"
    using rate_adjustment_bands [where v = "follower 9.94 1 0 None None (Some 12000) []"
        and av = "?av 9.94 0" and ps = ?ps and sessionNow = 15000 and e = 10 and d = 60
        and s = "- 60" and now = 15000]
    by (auto simp add: ev)
  have d: "\<exists>v'. checkPlaybackTiming 15000 15000
             (follower 9.84 1 0 None None (Some 12000) []) = Inr v' \<and> playbackBoost v' = 3"
    using rate_adjustment_bands [where v = "follower 9.84 1 0 None None (Some 12000) []"
        and av = "?av 9.84 0" and ps = ?ps and sessionNow = 15000 and e = 10 and d = 60
        and s = "- 160" and now = 15000]
    by (auto simp add: ev)
  have e: "\<exists>v'. checkPlaybackTiming 15000 15000
             (follower 10.4 1 0 None None (Some 12000) []) = Inr v' \<and> playbackBoost v' = - 5"
    using rate_adjustment_bands [where v = "follower 10.4 1 0 None None (Some 12000) []"
        and av = "?av 10.4 0" and ps = ?ps and sessionNow = 15000 and e = 10 and d = 60
        and s = "400" and now = 15000]
    by (auto simp add: ev)
  from a b c d e show ?thesis by (simp only: simp_thms)
qed

subsection \<open>Jumps\<close>




subsection \<open>Repeated play states\<close>

text \<open>
  Claim C5. A \<^verbatim>\<open>play-state-changed\<close> payload equal, field for field, to the play state the
  follower holds is ignored: \<open>playStateChanged\<close> returns the follower's state unchanged,
  so no \<open>play\<close> or \<open>pause\<close> call is added to the device's calls. Hence delivering one
  payload twice in a row leaves, after the second delivery, exactly the state the first
  produced; and when the first delivery was applied (device loaded, view synced, payload
  different from the held state) it made exactly one call.
\<close>

theorem playStateChanged_idempotent:
  "(latestPlayState v = Some p \<longrightarrow> playStateChanged now sessionNow p v = Inr v) \<and>
   (playStateChanged now sessionNow p v = Inr v' \<longrightarrow>
      playStateChanged now' sessionNow' p v' = Inr v' \<and>
      (audioView v = Some av \<and> \<not> waitingForSync v \<and> latestPlayState v \<noteq> Some p \<longrightarrow>
         (\<exists>av' c. audioView v' = Some av' \<and> calls av' = calls av @ [c])))"
proof (intro conjI impI)
  assume "latestPlayState v = Some p"
  then show "playStateChanged now sessionNow p v = Inr v"
    by (simp add: playStateChanged_def)
next
  assume a: "playStateChanged now sessionNow p v = Inr v'"
  have "latestPlayState v' = Some p"
  proof (cases "latestPlayState v = Some p")
    case True
    with a show ?thesis by (simp add: playStateChanged_def)
  next
    case False
    then have "applyPlayState now sessionNow (v\<lparr>latestPlayState := Some p\<rparr>) = Inr v'"
      using a by (auto simp: playStateChanged_def Let_def split: if_splits)
    from applyPlayState_latest [OF this] show ?thesis by simp
  qed
  then show "playStateChanged now' sessionNow' p v' = Inr v'"
    by (simp add: playStateChanged_def)
next
  assume a: "playStateChanged now sessionNow p v = Inr v'"
    and b: "audioView v = Some av \<and> \<not> waitingForSync v \<and> latestPlayState v \<noteq> Some p"
  then have "applyPlayState now sessionNow (v\<lparr>latestPlayState := Some p\<rparr>) = Inr v'"
    by (auto simp: playStateChanged_def Let_def split: if_splits)
  from applyPlayState_calls [OF this] b
  show "\<exists>av' c. audioView v' = Some av' \<and> calls av' = calls av @ [c]" by simp
qed

theorem playStateChanged_idempotent_witness:
  "latestPlayState
     (audience (track 5.1 1 0.2 True True [Pause (Some 0), Play 5.1])
        \<lparr>isPlaying = True, startOffset = Some 5000, pausedTime = None\<rparr>
        0 None None (Some 10000) False)
     = Some \<lparr>isPlaying = True, startOffset = Some 5000, pausedTime = None\<rparr> \<and>
   playStateChanged 10000 10000
     \<lparr>isPlaying = True, startOffset = Some 5000, pausedTime = None\<rparr>
     (audience (track 0 1 1 False False [Pause (Some 0)])
        \<lparr>isPlaying = False, startOffset = None, pausedTime = Some 0\<rparr>
        0 None None None True)
     = Inr (audience (track 5.1 1 0.2 True True [Pause (Some 0), Play 5.1])
              \<lparr>isPlaying = True, startOffset = Some 5000, pausedTime = None\<rparr>
              0 None None (Some 10000) False) \<and>
   playStateChanged 10900 10900
     \<lparr>isPlaying = True, startOffset = Some 5000, pausedTime = None\<rparr>
     (audience (track 5.1 1 0.2 True True [Pause (Some 0), Play 5.1])
        \<lparr>isPlaying = True, startOffset = Some 5000, pausedTime = None\<rparr>
        0 None None (Some 10000) False)
     = Inr (audience (track 5.1 1 0.2 True True [Pause (Some 0), Play 5.1])
              \<lparr>isPlaying = True, startOffset = Some 5000, pausedTime = None\<rparr>
              0 None None (Some 10000) False)"
proof -
  let ?p = "\<lparr>isPlaying = True, startOffset = Some 5000, pausedTime = None\<rparr>"
  let ?v = "audience (track 0 1 1 False False [Pause (Some 0)])
        \<lparr>isPlaying = False, startOffset = None, pausedTime = Some 0\<rparr>
        0 None None None True"
  let ?v' = "audience (track 5.1 1 0.2 True True [Pause (Some 0), Play 5.1]) ?p
        0 None None (Some 10000) False"
  have l: "latestPlayState ?v' = Some ?p" by (simp add: audience_def)
  have first: "playStateChanged 10000 10000 ?p ?v = Inr ?v'" by (rule scenario_A)
  from playStateChanged_idempotent [of ?v ?p 10000 10000 ?v' 10900 10900] first
  have second: "playStateChanged 10900 10900 ?p ?v' = Inr ?v'" by blast
  from l first second show ?thesis by (simp only: simp_thms)
qed

subsection \<open>Starting playback\<close>

text \<open>
  Claim C8. When a loaded, synced follower applies a play state with \<open>isPlaying\<close> true,
  the expected position it computes is \<open>(sessionNow - startOffset) / 1000\<close> and it calls the
  device's \<open>play\<close> with that position plus 0.1. In the scenario of the witness the model
  receives \<open>setAssets\<close> and then \<open>setPlayState\<close> with \<open>startOffset = now() - 5000\<close>, and the
  follower, on the published payload, calls \<open>play\<close> with \<open>5.0 + 0.1\<close>.
\<close>

theorem play_entry_position:
  assumes "audioView v = Some av" "\<not> waitingForSync v" "latestPlayState v = Some ps"
    "isPlaying ps" "duration av = Some d" "0 < d"
  shows "calculateAudioTime sessionNow v = Inr ((sessionNow - num_of (startOffset ps)) / 1000) \<and>
     (\<exists>v' av'. applyPlayState now sessionNow v = Inr v' \<and> audioView v' = Some av' \<and>
        av_isPlaying av' \<and>
        calls av' = calls av @ [Play ((sessionNow - num_of (startOffset ps)) / 1000 + 0.1)])"
proof -
  let ?av1 = "av\<lparr>audio := (audio av)\<lparr>playbackRate := 1 + playbackBoost v * 0.01\<rparr>\<rparr>"
  let ?p = "(sessionNow - num_of (startOffset ps)) / 1000 + 0.1"
  from assms(5) have "duration ?av1 = Some d" by simp
  from play_total [OF this assms(6), of ?p]
  obtain av2 where p: "play ?p ?av1 = Inr av2" "calls av2 = calls ?av1 @ [Play ?p]" by blast
  from p(1) have "av_isPlaying av2"
    by (auto simp: play_def split: sum.splits)
  moreover from applyPlayState_playing [OF assms(1-4) p(1), of now]
  have "applyPlayState now sessionNow v =
           Inr (v\<lparr>lastJump := None, smoothedDiff := None, playIcon := False,
                  lastRateAdjust := Some now, jumpIfNeeded := False, audioView := Some av2\<rparr>)" .
  ultimately show ?thesis using p(2) assms(3) by (simp add: calculateAudioTime_def)
qed

theorem play_entry_position_witness:
  "((10000 :: real) - 5000) / 1000 + 0.1 = 5.0 + 0.1 \<and>
   last (published (setPlayState \<lparr>isPlaying = True, startOffset = Some 5000, pausedTime = None\<rparr>
                       (setAssets sampleAudio sampleVideo init_model)))
     = PlayStateChanged \<lparr>isPlaying = True, startOffset = Some 5000, pausedTime = None\<rparr> \<and>
   (\<exists>v' av'. playStateChanged 10000 10000
                 \<lparr>isPlaying = True, startOffset = Some 5000, pausedTime = None\<rparr>
                 (audience (track 0 1 1 False False [Pause (Some 0)])
                    \<lparr>isPlaying = False, startOffset = None, pausedTime = Some 0\<rparr>
                    0 None None None True) = Inr v' \<and>
      audioView v' = Some av' \<and> av_isPlaying av' \<and>
      calls av' = [Pause (Some 0), Play (5.0 + 0.1)])"
proof -
  let ?p = "\<lparr>isPlaying = True, startOffset = Some 5000, pausedTime = None\<rparr>"
  let ?av = "track 0 1 1 False False [Pause (Some 0)]"
  let ?v = "audience ?av \<lparr>isPlaying = False, startOffset = None, pausedTime = Some 0\<rparr>
              0 None None None True"
  let ?w = "?v\<lparr>latestPlayState := Some ?p\<rparr>"
  have h: "audioView ?w = Some ?av" "\<not> waitingForSync ?w" "latestPlayState ?w = Some ?p"
    "isPlaying ?p" "duration ?av = Some 60" "(0 :: real) < 60"
    by (simp_all add: audience_def track_def)
  have "playStateChanged 10000 10000 ?p ?v = applyPlayState 10000 10000 ?w"
    by (simp add: playStateChanged_def audience_def)
  with play_entry_position [OF h, of 10000 10000]
  have "\<exists>v' av'. playStateChanged 10000 10000 ?p ?v = Inr v' \<and>
      audioView v' = Some av' \<and> av_isPlaying av' \<and>
      calls av' = [Pause (Some 0), Play (5.0 + 0.1)]"
    by (simp add: track_def num_of_def)
  moreover have "last (published (setPlayState ?p (setAssets sampleAudio sampleVideo init_model)))
     = PlayStateChanged ?p"
    by (simp add: setPlayState_def publish_def)
  ultimately show ?thesis by simp
qed

subsection \<open>Seeking near the end\<close>

text \<open>
  Claim C9. For a device with a known positive duration \<open>d\<close> and every position \<open>p\<close>,
  \<open>wrappedTime p\<close> with the guard returns, and returns at most \<open>d - 0.1\<close>; the position
  that \<open>play\<close>, \<open>pause\<close> (with an argument) and a jump of the timing check assign to the
  element is therefore at most \<open>d - 0.1\<close>.
\<close>

theorem guarded_seek_below_end:
  assumes "duration av = Some d" "0 < d"
  shows "(\<exists>r. wrappedTime av p True = Inr r \<and> r \<le> d - 0.1) \<and>
         (\<exists>av'. play p av = Inr av' \<and> currentTime (audio av') \<le> d - 0.1) \<and>
         (\<exists>av'. pause (Some p) av = Inr av' \<and> currentTime (audio av') \<le> d - 0.1) \<and>
         (\<forall>now sessionNow v v' rep.
            audioView v = Some av \<and> checkPlaybackTiming now sessionNow v = Inr v' \<and>
            reports v' = reports v @ [rep] \<and> r_jumped rep \<noteq> None \<longrightarrow>
              (\<exists>av'. audioView v' = Some av' \<and> currentTime (audio av') \<le> d - 0.1))"
proof (intro conjI)
  from wrappedTime_total [OF assms, of p True]
  show "\<exists>r. wrappedTime av p True = Inr r \<and> r \<le> d - 0.1" by blast
  from play_total [OF assms, of p]
  show "\<exists>av'. play p av = Inr av' \<and> currentTime (audio av') \<le> d - 0.1" by blast
  from pause_total [OF assms, of p]
  show "\<exists>av'. pause (Some p) av = Inr av' \<and> currentTime (audio av') \<le> d - 0.1" by blast
  show "\<forall>now sessionNow v v' rep.
            audioView v = Some av \<and> checkPlaybackTiming now sessionNow v = Inr v' \<and>
            reports v' = reports v @ [rep] \<and> r_jumped rep \<noteq> None \<longrightarrow>
              (\<exists>av'. audioView v' = Some av' \<and> currentTime (audio av') \<le> d - 0.1)"
    using jump_seek_guarded [OF _ assms] by blast
qed

theorem guarded_seek_below_end_witness:
  "(\<exists>r. wrappedTime (track 30 1 1 True False []) 119.95 True = Inr r \<and> r \<le> 60 - 0.1) \<and>
   (\<exists>av'. play 119.95 (track 30 1 1 True False []) = Inr av' \<and>
          currentTime (audio av') \<le> 60 - 0.1) \<and>
   (\<exists>av'. pause (Some 119.95) (track 30 1 1 True False []) = Inr av' \<and>
          currentTime (audio av') \<le> 60 - 0.1) \<and>
   (\<exists>v' av'. checkPlaybackTiming 64900 64900 (follower 59.3 1 0 None None (Some 63000) [])
                 = Inr v' \<and>
       audioView v' = Some av' \<and> currentTime (audio av') \<le> 60 - 0.1)"
proof -
  let ?av = "track 30 1 1 True False []"
  let ?v = "follower 59.3 1 0 None None (Some 63000) []"
  let ?v' = "follower 0.1 1 0 None None (Some 63000)
              [measured 59.9 59.3 1 (Some (- 600)) (Some (- 600)) (Some 600)]"
  let ?dev = "\<lparr>duration = Some 60,
           audio = \<lparr>currentTime = 59.3, playbackRate = 1 + 0 * 0.01, volume = 1\<rparr>,
           av_isPlaying = True, av_isBlocked = False,
           calls = [Pause (Some 0), Play 5.1]\<rparr>"
  have h: "duration ?av = Some 60" "(0 :: real) < 60" by (simp_all add: track_def)
  have k: "duration ?dev = Some 60" by simp
  have c: "checkPlaybackTiming 64900 64900 ?v = Inr ?v'" by (simp add: check_eval)
  have j: "audioView ?v = Some ?dev \<and> checkPlaybackTiming 64900 64900 ?v = Inr ?v' \<and>
      reports ?v' = reports ?v @ [measured 59.9 59.3 1 (Some (- 600)) (Some (- 600)) (Some 600)] \<and>
      r_jumped (measured 59.9 59.3 1 (Some (- 600)) (Some (- 600)) (Some 600)) \<noteq> None"
    using c by (simp add: follower_fields measured_def)
  from guarded_seek_below_end [OF h, of "119.95"]
  have a: "(\<exists>r. wrappedTime ?av 119.95 True = Inr r \<and> r \<le> 60 - 0.1) \<and>
     (\<exists>av'. play 119.95 ?av = Inr av' \<and> currentTime (audio av') \<le> 60 - 0.1) \<and>
     (\<exists>av'. pause (Some 119.95) ?av = Inr av' \<and> currentTime (audio av') \<le> 60 - 0.1)"
    by blast
  from guarded_seek_below_end [OF k h(2), of 0] j
  have "\<exists>av'. audioView ?v' = Some av' \<and> currentTime (audio av') \<le> 60 - 0.1"
    by blast
  with c have "\<exists>v' av'. checkPlaybackTiming 64900 64900 ?v = Inr v' \<and>
       audioView v' = Some av' \<and> currentTime (audio av') \<le> 60 - 0.1" by simp
  with a show ?thesis by (simp only: simp_thms)
qed

subsection \<open>Positions below the start\<close>

text \<open>
  Claim C10, as the code has it. For a device with a known duration \<open>d\<close>, \<open>wrappedTime\<close>
  returns every position \<open>p \<le> d - 0.1\<close> unchanged, guarded or not, negative positions
  included: it wraps only values above the duration and has no lower bound. When a loaded,
  synced follower starts playback, the position it assigns to the element is
  \<open>(sessionNow - startOffset) / 1000 + 0.1\<close> whenever that is at most \<open>d - 0.1\<close>; this is
  negative when the session clock is more than 100 ms behind \<open>startOffset\<close>.
\<close>

theorem no_clamp_from_below:
  "(duration av = Some d \<and> p \<le> d - 0.1 \<longrightarrow> wrappedTime av p guarded = Inr p) \<and>
   (audioView v = Some av \<and> \<not> waitingForSync v \<and> latestPlayState v = Some ps \<and>
    isPlaying ps \<and> startOffset ps = Some so \<and> duration av = Some d \<and>
    (sessionNow - so) / 1000 + 0.1 \<le> d - 0.1 \<longrightarrow>
      (\<exists>v' av'. applyPlayState now sessionNow v = Inr v' \<and> audioView v' = Some av' \<and>
         currentTime (audio av') = (sessionNow - so) / 1000 + 0.1 \<and>
         (sessionNow + 100 < so \<longrightarrow> currentTime (audio av') < 0)))"
proof (intro conjI impI)
  assume "duration av = Some d \<and> p \<le> d - 0.1"
  then show "wrappedTime av p guarded = Inr p" by (simp add: wrappedTime_unchanged)
next
  assume a: "audioView v = Some av \<and> \<not> waitingForSync v \<and> latestPlayState v = Some ps \<and>
    isPlaying ps \<and> startOffset ps = Some so \<and> duration av = Some d \<and>
    (sessionNow - so) / 1000 + 0.1 \<le> d - 0.1"
  let ?p = "(sessionNow - so) / 1000 + 0.1"
  let ?av1 = "av\<lparr>audio := (audio av)\<lparr>playbackRate := 1 + playbackBoost v * 0.01\<rparr>\<rparr>"
  let ?av2 = "?av1\<lparr>audio := (audio ?av1)\<lparr>currentTime := ?p, volume := 0.2\<rparr>,
                 av_isPlaying := True, av_isBlocked := True,
                 calls := calls ?av1 @ [Play ?p]\<rparr>"
  from a have a1: "audioView v = Some av" and a2: "\<not> waitingForSync v"
    and a3: "latestPlayState v = Some ps" and a4: "isPlaying ps"
    and a5: "startOffset ps = Some so" and a6: "duration av = Some d"
    and a7: "?p \<le> d - 0.1" by simp_all
  from a6 have "duration ?av1 = Some d" by simp
  from this a7 have "wrappedTime ?av1 ?p True = Inr ?p" by (rule wrappedTime_unchanged)
  then have "play ?p ?av1 = Inr ?av2" by (simp add: play_def)
  with a5 have "play ((sessionNow - num_of (startOffset ps)) / 1000 + 0.1) ?av1 = Inr ?av2"
    by (simp add: num_of_def)
  from applyPlayState_playing [OF a1 a2 a3 a4 this, of now]
  have "applyPlayState now sessionNow v =
           Inr (v\<lparr>lastJump := None, smoothedDiff := None, playIcon := False,
                  lastRateAdjust := Some now, jumpIfNeeded := False, audioView := Some ?av2\<rparr>)" .
  moreover have "sessionNow + 100 < so \<longrightarrow> ?p < 0" by (simp add: field_simps)
  ultimately show "\<exists>v' av'. applyPlayState now sessionNow v = Inr v' \<and> audioView v' = Some av' \<and>
         currentTime (audio av') = ?p \<and>
         (sessionNow + 100 < so \<longrightarrow> currentTime (audio av') < 0)"
    by simp
qed

text \<open>
  A session clock behind \<open>startOffset\<close> is not enough for a negative position: 50 ms behind,
  the lead of 0.1 s makes the follower seek to 0.05.
\<close>

theorem behind_start_counterexample:
  "(4950 :: real) < 5000 \<and>
   applyPlayState 4950 4950
     (audience (track 0 1 1 False False [Pause (Some 0)])
        \<lparr>isPlaying = True, startOffset = Some 5000, pausedTime = None\<rparr> 0 None None None True)
   = Inr (audience (track 0.05 1 0.2 True True [Pause (Some 0), Play 0.05])
        \<lparr>isPlaying = True, startOffset = Some 5000, pausedTime = None\<rparr>
        0 None None (Some 4950) False) \<and>
   \<not> currentTime (audio (track 0.05 1 0.2 True True [Pause (Some 0), Play 0.05])) < 0"
  by (simp add: apply_eval)

theorem no_clamp_from_below_witness:
  "wrappedTime (track 0 1 1 False False []) (- 2.9) True = Inr (- 2.9) \<and>
   wrappedTime (track 0 1 1 False False []) (- 2.9) False = Inr (- 2.9) \<and>
   (\<exists>v' av'. applyPlayState 2000 2000
       (audience (track 0 1 1 False False [Pause (Some 0)])
          \<lparr>isPlaying = True, startOffset = Some 5000, pausedTime = None\<rparr> 0 None None None True)
       = Inr v' \<and> audioView v' = Some av' \<and> currentTime (audio av') = - 2.9 \<and>
       currentTime (audio av') < 0)"
proof -
  let ?bare = "track 0 1 1 False False []"
  let ?av = "track 0 1 1 False False [Pause (Some 0)]"
  let ?ps = "\<lparr>isPlaying = True, startOffset = Some 5000, pausedTime = None\<rparr>"
  let ?v = "audience ?av ?ps 0 None None None True"
  have w: "duration ?bare = Some 60 \<and> (- 2.9 :: real) \<le> 60 - 0.1" by (simp add: track_def)
  have h: "audioView ?v = Some ?av \<and> \<not> waitingForSync ?v \<and> latestPlayState ?v = Some ?ps \<and>
    isPlaying ?ps \<and> startOffset ?ps = Some 5000 \<and> duration ?av = Some 60 \<and>
    ((2000 :: real) - 5000) / 1000 + 0.1 \<le> 60 - 0.1"
    by (simp add: audience_def track_def)
  have b: "(2000 :: real) + 100 < 5000" by simp
  from no_clamp_from_below [of ?bare 60 "- 2.9" True] w
  have 1: "wrappedTime ?bare (- 2.9) True = Inr (- 2.9)" by blast
  from no_clamp_from_below [of ?bare 60 "- 2.9" False] w
  have 2: "wrappedTime ?bare (- 2.9) False = Inr (- 2.9)" by blast
  from no_clamp_from_below [of ?av 60 0 True ?v ?ps 5000 2000 2000] h b
  have 3: "\<exists>v' av'. applyPlayState 2000 2000 ?v = Inr v' \<and> audioView v' = Some av' \<and>
       currentTime (audio av') = (2000 - 5000) / 1000 + 0.1 \<and> currentTime (audio av') < 0"
    by blast
  have "((2000 :: real) - 5000) / 1000 + 0.1 = - 2.9" by simp
  with 1 2 3 show ?thesis by simp
qed

subsection \<open>Resetting the drift bookkeeping\<close>

text \<open>
  Claim C6, as the code has it. When a loaded, synced follower applies a play state with
  \<open>isPlaying\<close> true, it resets \<open>smoothedDiff\<close> to null, deletes \<open>lastJump\<close> and sets
  \<open>lastRateAdjust\<close> to the current time; the rate boost is kept and the playback rate is
  set from it. When it applies a play state with \<open>isPlaying\<close> false, none of
  \<open>smoothedDiff\<close>, \<open>lastJump\<close>, \<open>lastRateAdjust\<close> and the boost changes, and the playback
  rate stays as it was. When a fresh asset has loaded, the boost is set to 0 and the play
  state held at that time is applied as just described (not at all while the view waits
  for sync).
\<close>

theorem drift_bookkeeping_resets:
  "(audioView v = Some av \<and> \<not> waitingForSync v \<and> latestPlayState v = Some ps \<and>
    duration av = Some d \<and> 0 < d \<longrightarrow>
      (\<exists>v' av'. applyPlayState now sessionNow v = Inr v' \<and> audioView v' = Some av' \<and>
         playbackBoost v' = playbackBoost v \<and>
         (isPlaying ps \<longrightarrow>
            smoothedDiff v' = None \<and> lastJump v' = None \<and> lastRateAdjust v' = Some now \<and>
            playbackRate (audio av') = 1 + playbackBoost v * 0.01) \<and>
         (\<not> isPlaying ps \<longrightarrow>
            smoothedDiff v' = smoothedDiff v \<and> lastJump v' = lastJump v \<and>
            lastRateAdjust v' = lastRateAdjust v \<and>
            playbackRate (audio av') = playbackRate (audio av)))) \<and>
   (latestPlayState v = Some ps \<and> duration newView = Some d \<and> 0 < d \<longrightarrow>
      (\<exists>v'. assetsLoaded now sessionNow True newView v = Inr v' \<and> playbackBoost v' = 0 \<and>
         (isPlaying ps \<and> \<not> waitingForSync v \<longrightarrow>
            smoothedDiff v' = None \<and> lastJump v' = None \<and> lastRateAdjust v' = Some now) \<and>
         (\<not> (isPlaying ps \<and> \<not> waitingForSync v) \<longrightarrow>
            smoothedDiff v' = smoothedDiff v \<and> lastJump v' = lastJump v \<and>
            lastRateAdjust v' = lastRateAdjust v)))"
proof (intro conjI impI)
  assume "audioView v = Some av \<and> \<not> waitingForSync v \<and> latestPlayState v = Some ps \<and>
    duration av = Some d \<and> 0 < d"
  then show "\<exists>v' av'. applyPlayState now sessionNow v = Inr v' \<and> audioView v' = Some av' \<and>
         playbackBoost v' = playbackBoost v \<and>
         (isPlaying ps \<longrightarrow>
            smoothedDiff v' = None \<and> lastJump v' = None \<and> lastRateAdjust v' = Some now \<and>
            playbackRate (audio av') = 1 + playbackBoost v * 0.01) \<and>
         (\<not> isPlaying ps \<longrightarrow>
            smoothedDiff v' = smoothedDiff v \<and> lastJump v' = lastJump v \<and>
            lastRateAdjust v' = lastRateAdjust v \<and>
            playbackRate (audio av') = playbackRate (audio av))"
    using applyPlayState_bookkeeping by blast
next
  assume a: "latestPlayState v = Some ps \<and> duration newView = Some d \<and> 0 < d"
  let ?v1 = "v\<lparr>abandonLoad := False, audioView := Some newView, playbackBoost := 0\<rparr>"
  show "\<exists>v'. assetsLoaded now sessionNow True newView v = Inr v' \<and> playbackBoost v' = 0 \<and>
         (isPlaying ps \<and> \<not> waitingForSync v \<longrightarrow>
            smoothedDiff v' = None \<and> lastJump v' = None \<and> lastRateAdjust v' = Some now) \<and>
         (\<not> (isPlaying ps \<and> \<not> waitingForSync v) \<longrightarrow>
            smoothedDiff v' = smoothedDiff v \<and> lastJump v' = lastJump v \<and>
            lastRateAdjust v' = lastRateAdjust v)"
  proof (cases "waitingForSync v")
    case True
    then have "applyPlayState now sessionNow ?v1 = Inr ?v1"
      by (simp add: applyPlayState_def)
    then have "assetsLoaded now sessionNow True newView v
        = Inr (?v1\<lparr>lastTimingCheck := Some (now + 500)\<rparr>)"
      by (simp add: assetsLoaded_def)
    with True show ?thesis by simp
  next
    case False
    from a False have h: "audioView ?v1 = Some newView" "\<not> waitingForSync ?v1"
      "latestPlayState ?v1 = Some ps" "duration newView = Some d" "0 < d" by simp_all
    from applyPlayState_bookkeeping [OF h, of now sessionNow]
    obtain v2 where v2: "applyPlayState now sessionNow ?v1 = Inr v2"
      "playbackBoost v2 = 0"
      "isPlaying ps \<longrightarrow> smoothedDiff v2 = None \<and> lastJump v2 = None \<and>
         lastRateAdjust v2 = Some now"
      "\<not> isPlaying ps \<longrightarrow> smoothedDiff v2 = smoothedDiff v \<and> lastJump v2 = lastJump v \<and>
         lastRateAdjust v2 = lastRateAdjust v"
      by auto
    from v2(1) have "assetsLoaded now sessionNow True newView v
        = Inr (v2\<lparr>lastTimingCheck := Some (now + 500)\<rparr>)"
      by (simp add: assetsLoaded_def)
    with v2(2-4) False show ?thesis by simp
  qed
qed

text \<open>
  Entering the paused state clears nothing: below, a follower with smoothed difference 200,
  a jump record, a rate adjustment time and a boost of 3 percent is paused and keeps all
  four. When playback starts again the boost is still 3 and \<open>lastRateAdjust\<close> is set to the
  time of the start rather than cleared.
\<close>

theorem pause_keeps_bookkeeping_counterexample:
  "playStateChanged 20000 20000 \<lparr>isPlaying = False, startOffset = None, pausedTime = Some 12\<rparr>
     (audience (track 12 1.03 1 True False [Play 5.1])
        \<lparr>isPlaying = True, startOffset = Some 8000, pausedTime = None\<rparr>
        3 (Some 200) (Some 9000) (Some 11000) False)
   = Inr (audience (track 12 1.03 1 False False [Play 5.1, Pause (Some 12)])
        \<lparr>isPlaying = False, startOffset = None, pausedTime = Some 12\<rparr>
        3 (Some 200) (Some 9000) (Some 11000) True) \<and>
   playStateChanged 30000 30000 \<lparr>isPlaying = True, startOffset = Some 18000, pausedTime = None\<rparr>
     (audience (track 12 1.03 1 False False [Play 5.1, Pause (Some 12)])
        \<lparr>isPlaying = False, startOffset = None, pausedTime = Some 12\<rparr>
        3 (Some 200) (Some 9000) (Some 11000) True)
   = Inr (audience (track 12.1 1.03 0.2 True True [Play 5.1, Pause (Some 12), Play 12.1])
        \<lparr>isPlaying = True, startOffset = Some 18000, pausedTime = None\<rparr>
        3 None None (Some 30000) False) \<and>
   smoothedDiff
     (audience (track 12 1.03 1 False False [Play 5.1, Pause (Some 12)])
        \<lparr>isPlaying = False, startOffset = None, pausedTime = Some 12\<rparr>
        3 (Some 200) (Some 9000) (Some 11000) True) = Some 200 \<and>
   lastJump
     (audience (track 12 1.03 1 False False [Play 5.1, Pause (Some 12)])
        \<lparr>isPlaying = False, startOffset = None, pausedTime = Some 12\<rparr>
        3 (Some 200) (Some 9000) (Some 11000) True) = Some 9000 \<and>
   lastRateAdjust
     (audience (track 12 1.03 1 False False [Play 5.1, Pause (Some 12)])
        \<lparr>isPlaying = False, startOffset = None, pausedTime = Some 12\<rparr>
        3 (Some 200) (Some 9000) (Some 11000) True) = Some 11000 \<and>
   playbackBoost
     (audience (track 12 1.03 1 False False [Play 5.1, Pause (Some 12)])
        \<lparr>isPlaying = False, startOffset = None, pausedTime = Some 12\<rparr>
        3 (Some 200) (Some 9000) (Some 11000) True) = 3 \<and>
   playbackBoost
     (audience (track 12.1 1.03 0.2 True True [Play 5.1, Pause (Some 12), Play 12.1])
        \<lparr>isPlaying = True, startOffset = Some 18000, pausedTime = None\<rparr>
        3 None None (Some 30000) False) = 3 \<and>
   lastRateAdjust
     (audience (track 12.1 1.03 0.2 True True [Play 5.1, Pause (Some 12), Play 12.1])
        \<lparr>isPlaying = True, startOffset = Some 18000, pausedTime = None\<rparr>
        3 None None (Some 30000) False) = Some 30000"
  by (simp add: apply_eval)

theorem drift_bookkeeping_resets_witness:
  "(\<exists>v'. applyPlayState 20000 20000
            (audience (track 12 1.03 1 True False [Play 5.1])
               \<lparr>isPlaying = False, startOffset = None, pausedTime = Some 12\<rparr>
               3 (Some 200) (Some 9000) (Some 11000) False) = Inr v' \<and>
          smoothedDiff v' = Some 200 \<and> lastJump v' = Some 9000 \<and>
          lastRateAdjust v' = Some 11000 \<and> playbackBoost v' = 3) \<and>
   (\<exists>v'. applyPlayState 30000 30000
            (audience (track 12 1.03 1 False False [Play 5.1, Pause (Some 12)])
               \<lparr>isPlaying = True, startOffset = Some 18000, pausedTime = None\<rparr>
               3 (Some 200) (Some 9000) (Some 11000) True) = Inr v' \<and>
          smoothedDiff v' = None \<and> lastJump v' = None \<and>
          lastRateAdjust v' = Some 30000 \<and> playbackBoost v' = 3) \<and>
   (\<exists>v'. assetsLoaded 30000 30000 True (newAudioView (Some 60))
            (audience (track 12 1.03 1 False False [Play 5.1, Pause (Some 12)])
               \<lparr>isPlaying = True, startOffset = Some 18000, pausedTime = None\<rparr>
               3 (Some 200) (Some 9000) (Some 11000) True) = Inr v' \<and>
          playbackBoost v' = 0 \<and> smoothedDiff v' = None \<and> lastJump v' = None \<and>
          lastRateAdjust v' = Some 30000)"
proof -
  let ?a = "track 12 1.03 1 True False [Play 5.1]"
  let ?b = "track 12 1.03 1 False False [Play 5.1, Pause (Some 12)]"
  let ?off = "\<lparr>isPlaying = False, startOffset = None, pausedTime = Some 12\<rparr>"
  let ?on = "\<lparr>isPlaying = True, startOffset = Some 18000, pausedTime = None\<rparr>"
  let ?v = "audience ?a ?off 3 (Some 200) (Some 9000) (Some 11000) False"
  let ?w = "audience ?b ?on 3 (Some 200) (Some 9000) (Some 11000) True"
  have hv: "audioView ?v = Some ?a \<and> \<not> waitingForSync ?v \<and> latestPlayState ?v = Some ?off \<and>
    duration ?a = Some 60 \<and> (0 :: real) < 60"
    by (simp add: audience_def track_def)
  have hw: "audioView ?w = Some ?b \<and> \<not> waitingForSync ?w \<and> latestPlayState ?w = Some ?on \<and>
    duration ?b = Some 60 \<and> (0 :: real) < 60"
    by (simp add: audience_def track_def)
  have hl: "latestPlayState ?w = Some ?on \<and> duration (newAudioView (Some 60)) = Some 60 \<and>
    (0 :: real) < 60"
    by (simp add: audience_def newAudioView_def)
  have f: "smoothedDiff ?v = Some 200" "lastJump ?v = Some 9000"
    "lastRateAdjust ?v = Some 11000" "playbackBoost ?v = 3" "playbackBoost ?w = 3"
    "\<not> isPlaying ?off" "isPlaying ?on" "\<not> waitingForSync ?w"
    by (simp_all add: audience_def)
  from drift_bookkeeping_resets [of ?v ?a ?off 60 20000 20000] hv f
  have 1: "\<exists>v'. applyPlayState 20000 20000 ?v = Inr v' \<and>
          smoothedDiff v' = Some 200 \<and> lastJump v' = Some 9000 \<and>
          lastRateAdjust v' = Some 11000 \<and> playbackBoost v' = 3"
    by (elim conjE impE exE) (simp_all, blast)
  from drift_bookkeeping_resets [of ?w ?b ?on 60 30000 30000] hw f
  have 2: "\<exists>v'. applyPlayState 30000 30000 ?w = Inr v' \<and>
          smoothedDiff v' = None \<and> lastJump v' = None \<and>
          lastRateAdjust v' = Some 30000 \<and> playbackBoost v' = 3"
    by (elim conjE impE exE) (simp_all, blast)
  from drift_bookkeeping_resets [where v = ?w and ps = ?on and d = 60
      and newView = "newAudioView (Some 60)" and now = 30000 and sessionNow = 30000] hl f
  have 3: "\<exists>v'. assetsLoaded 30000 30000 True (newAudioView (Some 60)) ?w = Inr v' \<and>
          playbackBoost v' = 0 \<and> smoothedDiff v' = None \<and> lastJump v' = None \<and>
          lastRateAdjust v' = Some 30000"
    by blast
  from 1 2 3 show ?thesis by (simp only: simp_thms)
qed

subsection \<open>Smoothing of the measured difference\<close>

text \<open>
  Claim C3, as the code has it. The smoothed difference is rounded to a whole number of
  milliseconds: it is \<open>round diffMs\<close> on the first sample and
  \<open>round (0.3 * diffMs + 0.7 * previous)\<close> on every later one. A check with an accepted
  sample reports this value and stores it in \<open>smoothedDiff\<close>, unless the check jumps, which
  resets \<open>smoothedDiff\<close> to null. For a constant input \<open>d\<close> and a whole-numbered starting
  value \<open>s\<close> (the only values the code stores), every step moves the smoothed value towards
  \<open>d\<close> or leaves it where it is, never past \<open>d\<close>; the sequence becomes constant after
  finitely many steps, at a value within \<open>5/3\<close> ms of \<open>d\<close>, which need not be \<open>d\<close>.
\<close>


theorem smoothing_rounded_monotone:
  "audioDiffMSSmoothed None x = of_int (round x) \<and>
   audioDiffMSSmoothed (Some prev) x = of_int (round (0.3 * x + 0.7 * prev)) \<and>
   (audioView v = Some av \<and> av_isPlaying av \<and> \<not> av_isBlocked av \<and>
    latestPlayState v = Some ps \<and>
    wrappedTime av ((sessionNow - num_of (startOffset ps)) / 1000) False = Inr e \<and>
    duration av = Some dur \<and> \<bar>currentTime (audio av) - e\<bar> < dur / 2 \<longrightarrow>
      (\<exists>v' rep. checkPlaybackTiming now sessionNow v = Inr v' \<and>
         reports v' = reports v @ [rep] \<and>
         r_audioDiffMSSmoothed rep =
           Some (audioDiffMSSmoothed (smoothedDiff v) ((currentTime (audio av) - e) * 1000)) \<and>
         (r_jumped rep = None \<longrightarrow>
            smoothedDiff v' =
              Some (audioDiffMSSmoothed (smoothedDiff v)
                      ((currentTime (audio av) - e) * 1000))) \<and>
         (r_jumped rep \<noteq> None \<longrightarrow> smoothedDiff v' = None))) \<and>
   (s \<in> \<int> \<longrightarrow>
      (\<forall>n. (s \<le> d \<longrightarrow> smoothed_seq d s n \<le> smoothed_seq d s (Suc n) \<and>
                          smoothed_seq d s (Suc n) \<le> d) \<and>
           (d \<le> s \<longrightarrow> d \<le> smoothed_seq d s (Suc n) \<and>
                          smoothed_seq d s (Suc n) \<le> smoothed_seq d s n)) \<and>
      (\<exists>N. \<forall>n\<ge>N. smoothed_seq d s n = smoothed_seq d s N \<and>
                     \<bar>d - smoothed_seq d s N\<bar> \<le> 5 / 3))"
proof -
  let ?s = "audioDiffMSSmoothed (smoothedDiff v) ((currentTime (audio av) - e) * 1000)"
  have c1: "audioDiffMSSmoothed None x = of_int (round x)" by (rule smoothed_first)
  have c2: "audioDiffMSSmoothed (Some prev) x = of_int (round (0.3 * x + 0.7 * prev))"
    by (rule smoothed_later)
  have c3: "audioView v = Some av \<and> av_isPlaying av \<and> \<not> av_isBlocked av \<and>
    latestPlayState v = Some ps \<and>
    wrappedTime av ((sessionNow - num_of (startOffset ps)) / 1000) False = Inr e \<and>
    duration av = Some dur \<and> \<bar>currentTime (audio av) - e\<bar> < dur / 2 \<longrightarrow>
      (\<exists>v' rep. checkPlaybackTiming now sessionNow v = Inr v' \<and>
         reports v' = reports v @ [rep] \<and> r_audioDiffMSSmoothed rep = Some ?s \<and>
         (r_jumped rep = None \<longrightarrow> smoothedDiff v' = Some ?s) \<and>
         (r_jumped rep \<noteq> None \<longrightarrow> smoothedDiff v' = None))"
  proof
    assume a: "audioView v = Some av \<and> av_isPlaying av \<and> \<not> av_isBlocked av \<and>
      latestPlayState v = Some ps \<and>
      wrappedTime av ((sessionNow - num_of (startOffset ps)) / 1000) False = Inr e \<and>
      duration av = Some dur \<and> \<bar>currentTime (audio av) - e\<bar> < dur / 2"
    from a have h: "audioView v = Some av" "av_isPlaying av" "\<not> av_isBlocked av"
      "latestPlayState v = Some ps"
      "wrappedTime av ((sessionNow - num_of (startOffset ps)) / 1000) False = Inr e"
      "duration av = Some dur" "\<bar>currentTime (audio av) - e\<bar> < dur / 2" by simp_all
    from accepted_sample_outcome [OF h refl, of now]
    obtain v' av' rep where
      o: "checkPlaybackTiming now sessionNow v = Inr v'"
        "audioView v' = Some av'" "reports v' = reports v @ [rep]"
        "r_audioDiffMSSmoothed rep = Some ?s"
        "r_jumped rep \<noteq> None \<longrightarrow>
           wrappedTime av (currentTime (audio av) - ?s / 1000 + 0.2) True
             = Inr (currentTime (audio av')) \<and>
           smoothedDiff v' = None \<and>
           lastJump v' = (if dur - currentTime (audio av) < 1.5 then None else Some now)"
        "r_jumped rep = None \<longrightarrow>
           currentTime (audio av') = currentTime (audio av) \<and>
           smoothedDiff v' = Some ?s \<and>
           lastJump v' = (if dur - currentTime (audio av) < 1.5 then None else lastJump v)"
      by (elim exE conjE) (rule that)
    from o(5) have j: "r_jumped rep \<noteq> None \<longrightarrow> smoothedDiff v' = None" by blast
    from o(6) have n: "r_jumped rep = None \<longrightarrow> smoothedDiff v' = Some ?s" by blast
    show "\<exists>v' rep. checkPlaybackTiming now sessionNow v = Inr v' \<and>
         reports v' = reports v @ [rep] \<and> r_audioDiffMSSmoothed rep = Some ?s \<and>
         (r_jumped rep = None \<longrightarrow> smoothedDiff v' = Some ?s) \<and>
         (r_jumped rep \<noteq> None \<longrightarrow> smoothedDiff v' = None)"
      by (intro exI conjI) (rule o(1) o(3) o(4) n j)+
  qed
  have c4: "s \<in> \<int> \<longrightarrow>
      (\<forall>n. (s \<le> d \<longrightarrow> smoothed_seq d s n \<le> smoothed_seq d s (Suc n) \<and>
                          smoothed_seq d s (Suc n) \<le> d) \<and>
           (d \<le> s \<longrightarrow> d \<le> smoothed_seq d s (Suc n) \<and>
                          smoothed_seq d s (Suc n) \<le> smoothed_seq d s n)) \<and>
      (\<exists>N. \<forall>n\<ge>N. smoothed_seq d s n = smoothed_seq d s N \<and>
                     \<bar>d - smoothed_seq d s N\<bar> \<le> 5 / 3)"
  proof
    assume s: "s \<in> \<int>"
    have m: "\<forall>n. (s \<le> d \<longrightarrow> smoothed_seq d s n \<le> smoothed_seq d s (Suc n) \<and>
                          smoothed_seq d s (Suc n) \<le> d) \<and>
           (d \<le> s \<longrightarrow> d \<le> smoothed_seq d s (Suc n) \<and>
                          smoothed_seq d s (Suc n) \<le> smoothed_seq d s n)"
      using smoothed_seq_monotone [OF s] by (intro allI)
    from s have st: "\<exists>N. \<forall>n\<ge>N. smoothed_seq d s n = smoothed_seq d s N \<and>
                     \<bar>d - smoothed_seq d s N\<bar> \<le> 5 / 3"
      by (rule smoothed_seq_settles)
    from m st show "(\<forall>n. (s \<le> d \<longrightarrow> smoothed_seq d s n \<le> smoothed_seq d s (Suc n) \<and>
                          smoothed_seq d s (Suc n) \<le> d) \<and>
           (d \<le> s \<longrightarrow> d \<le> smoothed_seq d s (Suc n) \<and>
                          smoothed_seq d s (Suc n) \<le> smoothed_seq d s n)) \<and>
      (\<exists>N. \<forall>n\<ge>N. smoothed_seq d s n = smoothed_seq d s N \<and>
                     \<bar>d - smoothed_seq d s N\<bar> \<le> 5 / 3)"
      by (rule conjI)
  qed
  from c1 c2 c3 c4 show ?thesis by (intro conjI)
qed

text \<open>
  Without the rounding the claim fails: a first sample of 0.4 ms is smoothed to 0, and from
  the stored value 9 the constant input 10 gives 9 again (not 9.3), so the sequence stays
  at 9 and never comes closer to 10. The last conjunct is a check that measures 0.4 ms and
  reports and stores 0.
\<close>

theorem smoothing_unrounded_counterexample:
  "audioDiffMSSmoothed None 0.4 = 0 \<and> (0 :: real) \<noteq> 0.4 \<and>
   audioDiffMSSmoothed (Some 9) 10 = 9 \<and> (9 :: real) \<noteq> 0.3 * 10 + 0.7 * 9 \<and>
   smoothed_seq 10 9 1 = 9 \<and> smoothed_seq 10 9 2 = 9 \<and> (9 :: real) \<noteq> 10 \<and>
   checkPlaybackTiming 15000 15000 (follower 10.0004 1 0 None None (Some 14000) [])
     = Inr (follower 10.0004 1 0 (Some 0) None (Some 14000)
              [measured 10 10 1 (Some 0) (Some 0) None])"
  by (simp add: check_eval round_def eval_nat_numeral)

theorem smoothing_rounded_monotone_witness:
  "audioDiffMSSmoothed None 600.4 = 600 \<and>
   audioDiffMSSmoothed (Some 20) 60 = 32 \<and>
   (\<exists>v' rep. checkPlaybackTiming 15000 15000
                 (follower 10.06 1 0 (Some 20) None (Some 14000) []) = Inr v' \<and>
       reports v' = [rep] \<and> r_audioDiffMSSmoothed rep = Some 32) \<and>
   smoothed_seq 10 0 2 \<le> smoothed_seq 10 0 3 \<and> smoothed_seq 10 0 3 \<le> 10 \<and>
   10 \<le> smoothed_seq 10 20 3 \<and> smoothed_seq 10 20 3 \<le> smoothed_seq 10 20 2 \<and>
   (\<exists>N. \<forall>n\<ge>N. smoothed_seq 10 0 n = smoothed_seq 10 0 N \<and>
                  \<bar>10 - smoothed_seq 10 0 N\<bar> \<le> 5 / 3)"
proof -
  let ?ps = "\<lparr>isPlaying = True, startOffset = Some 5000, pausedTime = None\<rparr>"
  let ?dev = "\<lparr>duration = Some 60,
           audio = \<lparr>currentTime = 10.06, playbackRate = 1 + 0 * 0.01, volume = 1\<rparr>,
           av_isPlaying = True, av_isBlocked = False,
           calls = [Pause (Some 0), Play 5.1]\<rparr>"
  let ?v = "follower 10.06 1 0 (Some 20) None (Some 14000) []"
  note ev = follower_fields num_of_def wrappedTime_def wrap_loop.simps round_def
  have h: "audioView ?v = Some ?dev \<and> av_isPlaying ?dev \<and> \<not> av_isBlocked ?dev \<and>
    latestPlayState ?v = Some ?ps \<and>
    wrappedTime ?dev ((15000 - num_of (startOffset ?ps)) / 1000) False = Inr 10 \<and>
    duration ?dev = Some 60 \<and> \<bar>currentTime (audio ?dev) - 10\<bar> < 60 / 2"
    by (simp add: ev)
  have z: "(0 :: real) \<in> \<int>" "(20 :: real) \<in> \<int>" "(0 :: real) \<le> 10" "(10 :: real) \<le> 20"
    by simp_all
  note a = smoothing_rounded_monotone [where x = "600.4" and prev = 20 and v = ?v
      and av = ?dev and ps = ?ps and sessionNow = 15000 and e = 10 and dur = 60
      and now = 15000 and s = 0 and d = 10]
  note b = smoothing_rounded_monotone [where x = 60 and prev = 20 and v = ?v
      and av = ?dev and ps = ?ps and sessionNow = 15000 and e = 10 and dur = 60
      and now = 15000 and s = 20 and d = 10]
  from a have 1: "audioDiffMSSmoothed None 600.4 = 600" by (simp add: round_def)
  from b have 2: "audioDiffMSSmoothed (Some 20) 60 = 32" by (simp add: round_def)
  from a h have "\<exists>v' rep. checkPlaybackTiming 15000 15000 ?v = Inr v' \<and>
       reports v' = reports ?v @ [rep] \<and>
       r_audioDiffMSSmoothed rep =
         Some (audioDiffMSSmoothed (smoothedDiff ?v) ((currentTime (audio ?dev) - 10) * 1000))"
    by blast
  with 2 have 3: "\<exists>v' rep. checkPlaybackTiming 15000 15000 ?v = Inr v' \<and>
       reports v' = [rep] \<and> r_audioDiffMSSmoothed rep = Some 32"
    by (simp add: follower_fields)
  from a z have 4: "smoothed_seq 10 0 2 \<le> smoothed_seq 10 0 (Suc 2) \<and>
      smoothed_seq 10 0 (Suc 2) \<le> 10" by blast
  from b z have 5: "10 \<le> smoothed_seq 10 20 (Suc 2) \<and>
      smoothed_seq 10 20 (Suc 2) \<le> smoothed_seq 10 20 2" by blast
  from a z have 6: "\<exists>N. \<forall>n\<ge>N. smoothed_seq 10 0 n = smoothed_seq 10 0 N \<and>
                  \<bar>10 - smoothed_seq 10 0 N\<bar> \<le> 5 / 3" by blast
  have e: "Suc 2 = 3" by simp
  from 1 2 3 4 5 6 show ?thesis unfolding e by (intro conjI) blast+
qed

end
